theory Spec2Isabelle
  imports Complex_Main
begin

section \<open>Python strings\<close>

text \<open>
  A Python \<open>str\<close> is a sequence of Unicode code points. The report extractor works on
  Chinese text, so a string is modelled as the list of its code points (natural numbers),
  and \<open>len\<close>, slicing and comparison are those of lists. ASCII literals of the source are
  written with \<open>asc\<close>; the Chinese literals are given by their code points.
\<close>

type_synonym pystr = "nat list"

definition asc :: "string \<Rightarrow> pystr" where
  "asc s = map of_char s"

text \<open>
  \<open>str.isspace\<close> of one character, which is also what \<open>\s\<close> matches in a \<open>str\<close>
  pattern and what \<open>str.strip()\<close> removes (CPython's \<open>Py_UNICODE_ISSPACE\<close>).
\<close>

definition is_space :: "nat \<Rightarrow> bool" where
  "is_space c = ((9 \<le> c \<and> c \<le> 13) \<or> (28 \<le> c \<and> c \<le> 32) \<or> c = 133 \<or> c = 160
     \<or> c = 5760 \<or> (8192 \<le> c \<and> c \<le> 8202) \<or> c = 8232 \<or> c = 8233 \<or> c = 8239
     \<or> c = 8287 \<or> c = 12288)"

text \<open>
  \<open>\d\<close> in a \<open>str\<close> pattern matches every character of Unicode category Nd, not only
  \<open>0\<close>..\<open>9\<close>, and \<open>float()\<close> accepts all of them. The decimal digits come in blocks of ten
  consecutive code points with the values 0 to 9; these are the first code points of the
  blocks (Unicode 14.0, the table of CPython 3.11).
\<close>

definition nd_starts :: "nat list" where
  "nd_starts = [48, 1632, 1776, 1984, 2406, 2534, 2662, 2790, 2918, 3046, 3174, 3302,
     3430, 3558, 3664, 3792, 3872, 4160, 4240, 6112, 6160, 6470, 6608, 6784, 6800, 6992,
     7088, 7232, 7248, 42528, 43216, 43264, 43472, 43504, 43600, 44016, 65296, 66720,
     68912, 69734, 69872, 69942, 70096, 70384, 70736, 70864, 71248, 71360, 71472, 71904,
     72016, 72784, 73040, 73120, 92768, 92864, 93008, 120782, 120792, 120802, 120812,
     120822, 123200, 123632, 125264, 130032]"

fun digit_in :: "nat list \<Rightarrow> nat \<Rightarrow> nat option" where
  "digit_in [] c = None"
| "digit_in (b # bs) c = (if b \<le> c \<and> c < b + 10 then Some (c - b) else digit_in bs c)"

definition digit_value :: "nat \<Rightarrow> nat option" where
  "digit_value c = digit_in nd_starts c"

definition is_digit :: "nat \<Rightarrow> bool" where
  "is_digit c = (digit_value c \<noteq> None)"

text \<open>\<open>s.strip()\<close>: leading and trailing whitespace removed.\<close>

definition lstrip :: "pystr \<Rightarrow> pystr" where
  "lstrip s = dropWhile is_space s"

definition rstrip :: "pystr \<Rightarrow> pystr" where
  "rstrip s = rev (dropWhile is_space (rev s))"

definition strip :: "pystr \<Rightarrow> pystr" where
  "strip s = rstrip (lstrip s)"

text \<open>\<open>s.startswith(p)\<close> and the substring test \<open>k in s\<close>.\<close>

fun startswith :: "pystr \<Rightarrow> pystr \<Rightarrow> bool" where
  "startswith s [] = True"
| "startswith [] (p # ps) = False"
| "startswith (c # s) (p # ps) = (c = p \<and> startswith s ps)"

fun contains :: "pystr \<Rightarrow> pystr \<Rightarrow> bool" where
  "contains [] k = (k = [])"
| "contains (c # s) k = (startswith (c # s) k \<or> contains s k)"

text \<open>\<open>sep.join(parts)\<close>.\<close>

fun join :: "pystr \<Rightarrow> pystr list \<Rightarrow> pystr" where
  "join sep [] = []"
| "join sep [p] = p"
| "join sep (p # q # ps) = p @ sep @ join sep (q # ps)"

text \<open>
  \<open>s.zfill(w)\<close>: zeros are put on the left up to width \<open>w\<close>, after a leading sign
  (\<open>+\<close> is 43, \<open>-\<close> is 45, \<open>0\<close> is 48).
\<close>

definition zfill :: "nat \<Rightarrow> pystr \<Rightarrow> pystr" where
  "zfill w s =
     (let pad = replicate (w - length s) 48
      in case s of
           [] \<Rightarrow> pad
         | c # cs \<Rightarrow> if c = 43 \<or> c = 45 then c # pad @ cs else pad @ s)"

text \<open>\<open>s.split(sep)\<close> for a separator of one character.\<close>

fun split_on :: "nat \<Rightarrow> pystr \<Rightarrow> pystr list" where
  "split_on sep [] = [[]]"
| "split_on sep (c # s) =
     (if c = sep then [] # split_on sep s
      else case split_on sep s of
             [] \<Rightarrow> [[c]]
           | p # ps \<Rightarrow> (c # p) # ps)"

section \<open>Regular expressions\<close>

text \<open>
  The program does its text work with \<open>re.search\<close>, \<open>re.match\<close> and \<open>re.findall\<close>.
  The patterns it uses are built from literals, character classes, sequence,
  alternation, greedy and lazy repetition, capture groups and \<open>$\<close>. They are matched
  as Python's backtracking matcher does: \<open>bt r s c\<close> lists, in the order in which the
  matcher would try them, every way to match \<open>r\<close> at the start of \<open>s\<close>, each as the
  unread rest of \<open>s\<close> and the captures made so far. A greedy repetition lists the longer
  matches first, a lazy one the shorter, an alternation its left branch first; the first
  entry of the list for a whole pattern is the match Python reports.

  A repetition only iterates while its body consumes input. No pattern of the program
  has a repetition whose body can match the empty string, so this guard is never the
  reason a match is cut.
\<close>

datatype re =
    Cls "nat \<Rightarrow> bool"
  | Eps
  | Eos
  | Seq re re
  | Alt re re
  | Star re
  | StarLazy re
  | Grp nat re

type_synonym caps = "(nat \<times> pystr) list"

fun bt :: "re \<Rightarrow> pystr \<Rightarrow> caps \<Rightarrow> (pystr \<times> caps) list" where
  "bt (Cls p) s c = (case s of [] \<Rightarrow> [] | x # xs \<Rightarrow> if p x then [(xs, c)] else [])"
| "bt Eps s c = [(s, c)]"
| "bt Eos s c = (if s = [] \<or> s = [10] then [(s, c)] else [])"
| "bt (Seq a b) s c = concat (map (\<lambda>r. bt b (fst r) (snd r)) (bt a s c))"
| "bt (Alt a b) s c = bt a s c @ bt b s c"
| "bt (Star a) s c =
     concat (map (\<lambda>r. if length (fst r) < length s then bt (Star a) (fst r) (snd r) else [])
                 (bt a s c)) @ [(s, c)]"
| "bt (StarLazy a) s c =
     (s, c) # concat (map (\<lambda>r. if length (fst r) < length s
                                then bt (StarLazy a) (fst r) (snd r) else [])
                          (bt a s c))"
| "bt (Grp n a) s c =
     map (\<lambda>r. (fst r, (n, take (length s - length (fst r)) s) # snd r)) (bt a s c)"

text \<open>
  The two helpers below say the same as the \<open>concat (map \<dots>)\<close> of \<open>bt\<close>, by recursion
  on the list of results; the simplifier runs \<open>bt\<close> through them on concrete strings.
\<close>

definition seq_results :: "re \<Rightarrow> (pystr \<times> caps) list \<Rightarrow> (pystr \<times> caps) list" where
  "seq_results b rs = concat (map (\<lambda>r. bt b (fst r) (snd r)) rs)"

definition rep_results :: "re \<Rightarrow> nat \<Rightarrow> (pystr \<times> caps) list \<Rightarrow> (pystr \<times> caps) list" where
  "rep_results a n rs = concat (map (\<lambda>r. if length (fst r) < n then bt a (fst r) (snd r) else []) rs)"

definition grp_results :: "nat \<Rightarrow> pystr \<Rightarrow> (pystr \<times> caps) list \<Rightarrow> (pystr \<times> caps) list" where
  "grp_results n s rs = map (\<lambda>r. (fst r, (n, take (length s - length (fst r)) s) # snd r)) rs"


text \<open>The pattern syntax of the source, as abbreviations over \<open>re\<close>.\<close>

definition Lit :: "nat \<Rightarrow> re" where
  "Lit x = Cls (\<lambda>c. c = x)"

definition OneOf :: "nat list \<Rightarrow> re" where
  "OneOf xs = Cls (\<lambda>c. c \<in> set xs)"

definition NoneOf :: "nat list \<Rightarrow> re" where
  "NoneOf xs = Cls (\<lambda>c. c \<notin> set xs)"

definition Digit :: re where
  "Digit = Cls is_digit"

definition NonDigit :: re where
  "NonDigit = Cls (\<lambda>c. \<not> is_digit c)"

definition Space :: re where
  "Space = Cls is_space"

definition NonSpace :: re where
  "NonSpace = Cls (\<lambda>c. \<not> is_space c)"

definition AnyChar :: re where
  "AnyChar = Cls (\<lambda>c. True)"

definition Opt :: "re \<Rightarrow> re" where
  "Opt r = Alt r Eps"

definition Plus :: "re \<Rightarrow> re" where
  "Plus r = Seq r (Star r)"

fun Seqs :: "re list \<Rightarrow> re" where
  "Seqs [] = Eps"
| "Seqs [r] = r"
| "Seqs (r # rs) = Seq r (Seqs rs)"

definition Str :: "pystr \<Rightarrow> re" where
  "Str s = Seqs (map Lit s)"

text \<open>\<open>m.group(n)\<close> of a match that took part in group \<open>n\<close>.\<close>

definition group :: "caps \<Rightarrow> nat \<Rightarrow> pystr" where
  "group c n = (case map_of c n of Some g \<Rightarrow> g | None \<Rightarrow> [])"

text \<open>
  \<open>re.match(r, s)\<close> matches at the start of \<open>s\<close> only; \<open>re.search(r, s)\<close> takes the first
  start position, from the left, at which \<open>r\<close> matches. Both give the captures.
\<close>

definition re_match :: "re \<Rightarrow> pystr \<Rightarrow> caps option" where
  "re_match r s = (case bt r s [] of [] \<Rightarrow> None | m # _ \<Rightarrow> Some (snd m))"

fun re_search :: "re \<Rightarrow> pystr \<Rightarrow> caps option" where
  "re_search r [] = re_match r []"
| "re_search r (x # xs) =
     (case re_match r (x # xs) of Some c \<Rightarrow> Some c | None \<Rightarrow> re_search r xs)"

text \<open>
  \<open>re.findall(r, s)\<close>: the matches from left to right, each search starting where the
  previous match ended. The patterns given to it here cannot match the empty string.
\<close>

function findall :: "re \<Rightarrow> pystr \<Rightarrow> caps list" where
  "findall r s =
     (case bt r s [] of
        m # _ \<Rightarrow>
          (if length (fst m) < length s then snd m # findall r (fst m)
           else snd m # (case s of [] \<Rightarrow> [] | _ # xs \<Rightarrow> findall r xs))
      | [] \<Rightarrow> (case s of [] \<Rightarrow> [] | _ # xs \<Rightarrow> findall r xs))"
  by pat_completeness auto
termination
  by (relation "measure (\<lambda>(r, s). length s)") auto

section \<open>Field extraction\<close>

text \<open>
  \<open>extract_test_date\<close> tries six patterns in order. \<open>cn_date\<close> is
  \<open>\d{4}Y\d{1,2}M\d{1,2}D\<close> with the characters for year (U+5E74), month (U+6708) and
  day (U+65E5); \<open>dash_date\<close> is \<open>\d{4}-\d{1,2}-\d{1,2}\<close>. The labels are
  U+68C0 U+6D4B U+65E5 U+671F ("test date"), U+65E5 U+671F ("date") and \<open>Date\<close>, each
  followed by a full-width (U+FF1A) or ASCII colon and \<open>\s*\<close>.
\<close>

definition ch_year :: nat where "ch_year = 24180"
definition ch_month :: nat where "ch_month = 26376"
definition ch_day :: nat where "ch_day = 26085"

definition d4 :: re where
  "d4 = Seqs [Digit, Digit, Digit, Digit]"

definition d12 :: re where
  "d12 = Seq Digit (Opt Digit)"

definition cn_date :: re where
  "cn_date = Seqs [d4, Lit ch_year, d12, Lit ch_month, d12, Lit ch_day]"

definition dash_date :: re where
  "dash_date = Seqs [d4, Lit 45, d12, Lit 45, d12]"

definition colon :: re where
  "colon = OneOf [65306, 58]"

definition labelled :: "pystr \<Rightarrow> re \<Rightarrow> re" where
  "labelled l r = Seqs [Str l, colon, Star Space, Grp 1 r]"

definition date_patterns :: "re list" where
  "date_patterns =
     [labelled [26816, 27979, 26085, 26399] cn_date,
      labelled [26816, 27979, 26085, 26399] dash_date,
      labelled [26085, 26399] cn_date,
      labelled (asc ''Date'') dash_date,
      Grp 1 cn_date,
      Grp 1 dash_date]"

text \<open>
  The body of the loop for a matched \<open>date_str\<close>: the year-month-day form is taken
  apart again with \<open>re.match\<close>, the dashed form with \<open>split('-')\<close>; \<open>None\<close> is the case
  in which neither \<open>return\<close> is reached and the loop goes on to the next pattern.
\<close>

definition cn_parts :: re where
  "cn_parts = Seqs [Grp 1 d4, Lit ch_year, Grp 2 d12, Lit ch_month, Grp 3 d12, Lit ch_day]"

definition normalize_date :: "pystr \<Rightarrow> pystr option" where
  "normalize_date date_str =
     (if ch_year \<in> set date_str then
        (case re_match cn_parts date_str of
           Some m \<Rightarrow> Some (group m 1 @ [45] @ zfill 2 (group m 2) @ [45] @ zfill 2 (group m 3))
         | None \<Rightarrow> None)
      else
        (case split_on 45 date_str of
           [y, m, d] \<Rightarrow> Some (y @ [45] @ zfill 2 m @ [45] @ zfill 2 d)
         | _ \<Rightarrow> None))"

definition unknown_date :: pystr where
  "unknown_date = [26410, 30693]"

fun try_dates :: "re list \<Rightarrow> pystr \<Rightarrow> pystr" where
  "try_dates [] doc_text = unknown_date"
| "try_dates (p # ps) doc_text =
     (case re_search p doc_text of
        Some m \<Rightarrow> (case normalize_date (group m 1) of
                     Some d \<Rightarrow> d
                   | None \<Rightarrow> try_dates ps doc_text)
      | None \<Rightarrow> try_dates ps doc_text)"

definition extract_test_date :: "pystr \<Rightarrow> pystr" where
  "extract_test_date doc_text = try_dates date_patterns doc_text"

section \<open>Floating-point numbers\<close>

text \<open>
  \<open>float\<close> is IEEE binary64. The program only ever builds floats from unsigned decimal
  tokens, adds them and divides by a count, so a float here is a non-negative double, given
  by its exact rational value, or \<open>+inf\<close>; negative numbers and NaN cannot arise. \<open>fl q\<close>
  is the double nearest to \<open>q \<ge> 0\<close>, ties to the even significand: the significand has
  53 bits, the exponent of its last bit is at least \<open>-1074\<close>, and a result of \<open>2^1024\<close> or
  more is \<open>+inf\<close>.
\<close>

datatype pyfloat = Fin rat | PInf

datatype error = OverflowError

fun bit_length :: "nat \<Rightarrow> nat" where
  "bit_length n = (if n = 0 then 0 else Suc (bit_length (n div 2)))"

declare bit_length.simps [simp del]

definition ilog2 :: "rat \<Rightarrow> int" where
  "ilog2 q = (if 1 \<le> q then int (bit_length (nat \<lfloor>q\<rfloor>)) - 1
              else - int (bit_length (nat (\<lceil>1 / q\<rceil> - 1))))"

definition pow2 :: "int \<Rightarrow> rat" where
  "pow2 e = (if 0 \<le> e then 2 ^ nat e else 1 / 2 ^ nat (- e))"

definition round_half_even :: "rat \<Rightarrow> int" where
  "round_half_even q =
     (let f = \<lfloor>q\<rfloor>; d = q - of_int f
      in if d < 1 / 2 then f
         else if 1 / 2 < d then f + 1
         else if even f then f else f + 1)"

definition fl :: "rat \<Rightarrow> pyfloat" where
  "fl q =
     (if q \<le> 0 then Fin 0
      else let e = max (ilog2 q - 52) (- 1074);
               v = of_int (round_half_even (q / pow2 e)) * pow2 e
           in if 2 ^ 1024 \<le> v then PInf else Fin v)"

text \<open>
  \<open>float(tok)\<close> for a token of the form digits, optional point, digits (the only
  strings the program converts): the decimal value, correctly rounded.
\<close>

definition digits_val :: "pystr \<Rightarrow> nat" where
  "digits_val s = foldl (\<lambda>a c. 10 * a + (case digit_value c of Some d \<Rightarrow> d | None \<Rightarrow> 0)) 0 s"

definition py_float :: "pystr \<Rightarrow> pyfloat" where
  "py_float tok =
     (let ip = takeWhile (\<lambda>c. c \<noteq> 46) tok;
          fp = drop (length ip + 1) tok
      in fl (of_nat (digits_val (ip @ fp)) / 10 ^ length fp))"

text \<open>
  \<open>round(x)\<close> with one argument gives the nearest \<open>int\<close>, ties to the even one, and
  raises \<open>OverflowError\<close> on infinity.
\<close>

definition py_round :: "pyfloat \<Rightarrow> error + int" where
  "py_round x = (case x of Fin q \<Rightarrow> Inr (round_half_even q) | PInf \<Rightarrow> Inl OverflowError)"

text \<open>
  \<open>sum(values) / len(values)\<close>: the sum starts at \<open>0\<close> and adds from left to right,
  each partial sum rounded to a double (CPython up to 3.11; later versions carry a
  compensation term, which stays zero while the partial sums are exact); the division is
  rounded once more.
\<close>

definition fadd :: "pyfloat \<Rightarrow> pyfloat \<Rightarrow> pyfloat" where
  "fadd x y = (case (x, y) of (Fin a, Fin b) \<Rightarrow> fl (a + b) | _ \<Rightarrow> PInf)"

definition fsum :: "pyfloat list \<Rightarrow> pyfloat" where
  "fsum xs = foldl fadd (Fin 0) xs"

definition fdiv_nat :: "pyfloat \<Rightarrow> nat \<Rightarrow> pyfloat" where
  "fdiv_nat x n = (case x of Fin a \<Rightarrow> fl (a / of_nat n) | PInf \<Rightarrow> PInf)"

definition mean :: "pyfloat list \<Rightarrow> pyfloat" where
  "mean xs = fdiv_nat (fsum xs) (length xs)"

text \<open>\<open>str(n)\<close> for an \<open>int\<close>, and the format \<open>f"{x:.1f}"\<close>.\<close>

fun str_nat :: "nat \<Rightarrow> pystr" where
  "str_nat n = (if n < 10 then [48 + n] else str_nat (n div 10) @ [48 + n mod 10])"

declare str_nat.simps [simp del]

definition str_int :: "int \<Rightarrow> pystr" where
  "str_int i = (if i < 0 then 45 # str_nat (nat (- i)) else str_nat (nat i))"

definition fmt1 :: "pyfloat \<Rightarrow> pystr" where
  "fmt1 x =
     (case x of
        Fin q \<Rightarrow> (let t = nat (round_half_even (q * 10))
                  in str_nat (t div 10) @ [46] @ str_nat (t mod 10))
      | PInf \<Rightarrow> asc ''inf'')"

section \<open>The table pipeline\<close>

text \<open>
  The input is what python-docx hands over: a document has paragraphs (their texts) and
  tables; a table is a list of rows and a row the list of the texts of its cells.
\<close>

type_synonym row = "pystr list"
type_synonym table = "row list"

record document =
  paragraphs :: "pystr list"
  tables :: "table list"

subsection \<open>Header analysis\<close>

text \<open>
  \<open>header_mapping\<close> is a dict from the three role names to a column index. The keyword
  lists are those of the source, in its order; a cell takes the role of the first branch
  of the \<open>if\<close>/\<open>elif\<close> chain one of whose keywords occurs in the stripped text.
\<close>

datatype role = TestItem | MeasuredValue | Judgment

type_synonym header_mapping = "role \<rightharpoonup> nat"

definition test_item_keywords :: "pystr list" where
  "test_item_keywords =
     [[26816, 27979, 39033, 30446], [39033, 30446], [26816, 27979, 20869, 23481],
      [26816, 27979, 37096, 20301], [37096, 20301]]"

definition measured_value_keywords :: "pystr list" where
  "measured_value_keywords =
     [[23454, 27979, 20540], [23454, 27979, 32467, 26524], [25968, 20540], [32467, 26524],
      [24378, 24230], [33455, 26679, 25239, 21387, 24378, 24230], [20195, 34920, 20540]]"

definition judgment_keywords :: "pystr list" where
  "judgment_keywords =
     [[21333, 39033, 21028, 23450], [21333, 39033, 32467, 35770], [21028, 23450],
      [32467, 35770], [32467, 35770]]"

definition any_in :: "pystr list \<Rightarrow> pystr \<Rightarrow> bool" where
  "any_in keywords cell_text = list_ex (\<lambda>keyword. contains cell_text keyword) keywords"

definition classify :: "pystr \<Rightarrow> role option" where
  "classify cell_text =
     (if any_in test_item_keywords cell_text then Some TestItem
      else if any_in measured_value_keywords cell_text then Some MeasuredValue
      else if any_in judgment_keywords cell_text then Some Judgment
      else None)"

text \<open>
  The state of the header loops is \<open>header_mapping\<close> and the flag \<open>has_test_data\<close>;
  the cells of a row are visited with their index, the rows in order.
\<close>

definition scan_cell :: "header_mapping \<times> bool \<Rightarrow> nat \<times> pystr \<Rightarrow> header_mapping \<times> bool" where
  "scan_cell st ic =
     (case classify (strip (snd ic)) of
        Some r \<Rightarrow> ((fst st)(r \<mapsto> fst ic), True)
      | None \<Rightarrow> st)"

definition scan_header_row :: "header_mapping \<times> bool \<Rightarrow> row \<Rightarrow> header_mapping \<times> bool" where
  "scan_header_row st cells = foldl scan_cell st (enumerate 0 cells)"

definition analyse_headers :: "row list \<Rightarrow> header_mapping \<times> bool" where
  "analyse_headers header_rows = foldl scan_header_row (Map.empty, False) header_rows"

text \<open>\<open>header_mapping.values()\<close>, \<open>len(header_mapping)\<close> and \<open>max(header_mapping.values())\<close>.\<close>

definition hm_values :: "header_mapping \<Rightarrow> nat list" where
  "hm_values hm = List.map_filter hm [TestItem, MeasuredValue, Judgment]"

definition hm_len :: "header_mapping \<Rightarrow> nat" where
  "hm_len hm = length (hm_values hm)"

definition max_col :: "header_mapping \<Rightarrow> nat" where
  "max_col hm = foldr max (hm_values hm) 0"

subsection \<open>Row extraction\<close>

text \<open>
  \<open>item_data\<close> is a dict with the keys \<open>test_item\<close>, \<open>measured_value\<close> and \<open>judgment\<close>,
  each present when its role has a column. The validity filter reads the three with
  \<open>.get(key, '')\<close> and lets a row pass only if all three are non-empty, so every dict
  that is kept has the three keys; the record holds the three \<open>.get\<close> values
  (\<open>judgment_val\<close> for the key \<open>judgment\<close>, which is a reserved word here).
\<close>

record item_data =
  test_item :: pystr
  measured_value :: pystr
  judgment_val :: pystr

text \<open>
  The body of the row loop up to the filter. \<open>table_data\<close> is the result list of
  \<open>extract_table_data\<close> as it stands while the rows are read; \<open>current_location\<close> is the
  carried label, returned updated.
\<close>

definition build_item ::
  "header_mapping \<Rightarrow> item_data list \<Rightarrow> nat \<Rightarrow> pystr \<Rightarrow> row \<Rightarrow> item_data \<times> pystr" where
  "build_item hm table_data row_idx current_location cells =
     (let ti = (case hm TestItem of
                  None \<Rightarrow> ([], current_location)
                | Some i \<Rightarrow>
                    (let test_item_text = strip (cells ! i)
                     in if test_item_text = [] \<and> row_idx > 0
                        then (current_location, current_location)
                        else (test_item_text, test_item_text)));
          mv = (case hm MeasuredValue of
                  None \<Rightarrow> []
                | Some i \<Rightarrow> strip (cells ! i));
          jt = (case hm Judgment of
                  None \<Rightarrow> []
                | Some i \<Rightarrow>
                    (let judgment_text = strip (cells ! i)
                     in if judgment_text = [] \<and> row_idx > 0
                        then (if table_data \<noteq> [] then judgment_val (last table_data) else [])
                        else judgment_text))
      in (\<lparr>test_item = fst ti, measured_value = mv, judgment_val = jt\<rparr>, snd ti))"

text \<open>The filter; U+4EE5 U+4E0B U+7A7A U+767D is the placeholder "blank below".\<close>

definition blank_below :: pystr where
  "blank_below = [20197, 19979, 31354, 30333]"

definition below_prefix :: pystr where
  "below_prefix = [20197, 19979]"

definition valid_item :: "item_data \<Rightarrow> bool" where
  "valid_item it =
     (test_item it \<noteq> [] \<and>
      test_item it \<notin> set [blank_below, [], [32]] \<and>
      \<not> startswith (test_item it) below_prefix \<and>
      measured_value it \<noteq> [] \<and>
      measured_value it \<notin> set [[], [32]] \<and>
      judgment_val it \<noteq> [] \<and>
      judgment_val it \<notin> set [[], [32]])"

text \<open>
  \<open>location_groups\<close> is a dict from the item label to the list of its rows; it keeps
  the order in which the labels were first seen.
\<close>

type_synonym groups = "(pystr \<times> item_data list) list"

fun groups_add :: "pystr \<Rightarrow> item_data \<Rightarrow> groups \<Rightarrow> groups" where
  "groups_add k v [] = [(k, [v])]"
| "groups_add k v ((k', vs) # g) =
     (if k = k' then (k', vs @ [v]) # g else (k', vs) # groups_add k v g)"

definition row_step ::
  "header_mapping \<Rightarrow> item_data list \<Rightarrow> pystr \<times> groups \<Rightarrow> nat \<times> row \<Rightarrow> pystr \<times> groups" where
  "row_step hm table_data st ir =
     (if length (snd ir) > max_col hm then
        (let b = build_item hm table_data (fst ir) (fst st) (snd ir)
         in (snd b, if valid_item (fst b) then groups_add (test_item (fst b)) (fst b) (snd st)
                    else snd st))
      else st)"

definition extract_rows :: "header_mapping \<Rightarrow> item_data list \<Rightarrow> row list \<Rightarrow> pystr \<times> groups" where
  "extract_rows hm table_data data_rows =
     foldl (row_step hm table_data) ([], []) (enumerate 0 data_rows)"

subsection \<open>Grouping by rounded value\<close>

text \<open>
  For one location, \<open>representative_values\<close> is a dict from the key
  \<open>f"{location}_{rounded_value}"\<close> to a bucket; it keeps the order in which the keys
  were first seen. \<open>number_re\<close> is \<open>(\d+\.?\d*)\<close>.
\<close>

record bucket =
  b_location :: pystr
  b_judgment :: pystr
  b_values :: "pyfloat list"
  sample_item :: item_data

type_synonym buckets = "(pystr \<times> bucket) list"

definition number_re :: re where
  "number_re = Grp 1 (Seqs [Plus Digit, Opt (Lit 46), Star Digit])"

definition bucket_key :: "pystr \<Rightarrow> int \<Rightarrow> pystr" where
  "bucket_key location rounded_value = location @ [95] @ str_int rounded_value"

fun append_value :: "pystr \<Rightarrow> pyfloat \<Rightarrow> buckets \<Rightarrow> buckets" where
  "append_value key v [] = []"
| "append_value key v ((k, b) # rv) =
     (if k = key then (k, b\<lparr>b_values := b_values b @ [v]\<rparr>) # rv
      else (k, b) # append_value key v rv)"

definition bucket_item :: "pystr \<Rightarrow> buckets \<Rightarrow> item_data \<Rightarrow> error + buckets" where
  "bucket_item location rv item =
     (case re_search number_re (measured_value item) of
        None \<Rightarrow> Inr rv
      | Some val_match \<Rightarrow>
          (let numeric_value = py_float (group val_match 1)
           in case py_round numeric_value of
                Inl e \<Rightarrow> Inl e
              | Inr rounded_value \<Rightarrow>
                  (let key = bucket_key location rounded_value;
                       rv' = (if map_of rv key = None
                              then rv @ [(key, \<lparr>b_location = location,
                                                 b_judgment = judgment_val item,
                                                 b_values = [],
                                                 sample_item = item\<rparr>)]
                              else rv)
                   in Inr (append_value key numeric_value rv'))))"

fun bucket_items :: "pystr \<Rightarrow> buckets \<Rightarrow> item_data list \<Rightarrow> error + buckets" where
  "bucket_items location rv [] = Inr rv"
| "bucket_items location rv (item # items) =
     (case bucket_item location rv item of
        Inl e \<Rightarrow> Inl e
      | Inr rv' \<Rightarrow> bucket_items location rv' items)"

text \<open>
  The record made for one bucket: a copy of the sample item with the average in place of
  its value. \<open>leading_number_re\<close> is \<open>\d+\.?\d*\<close>, used with \<open>re.match\<close>;
  \<open>unit_re\<close> is \<open>([^\d]+)$\<close>, used with \<open>re.search\<close>.
\<close>

definition leading_number_re :: re where
  "leading_number_re = Seqs [Plus Digit, Opt (Lit 46), Star Digit]"

definition unit_re :: re where
  "unit_re = Seq (Grp 1 (Plus NonDigit)) Eos"

definition representative :: "bucket \<Rightarrow> item_data" where
  "representative data =
     (let avg_value = mean (b_values data);
          original_format = measured_value (sample_item data)
      in (sample_item data)\<lparr>measured_value :=
            (if re_match leading_number_re original_format \<noteq> None then fmt1 avg_value
             else case re_search unit_re original_format of
                    Some unit_match \<Rightarrow> fmt1 avg_value @ [32] @ strip (group unit_match 1)
                  | None \<Rightarrow> fmt1 avg_value)\<rparr>)"

definition emit_buckets :: "buckets \<Rightarrow> item_data list" where
  "emit_buckets rv = map (\<lambda>kd. representative (snd kd)) (filter (\<lambda>kd. b_values (snd kd) \<noteq> []) rv)"

fun emit_groups :: "item_data list \<Rightarrow> groups \<Rightarrow> error + item_data list" where
  "emit_groups table_data [] = Inr table_data"
| "emit_groups table_data ((location, items) # g) =
     (if items \<noteq> [] then
        (case bucket_items location [] items of
           Inl e \<Rightarrow> Inl e
         | Inr rv \<Rightarrow> emit_groups (table_data @ emit_buckets rv) g)
      else emit_groups table_data g)"

subsection \<open>The loop over the tables\<close>

text \<open>
  The body of the loop for one table, from the result list so far to the new one, and
  the loop, which stops after the first table that leaves the list non-empty. An
  exception leaves \<open>extract_table_data\<close> altogether.
\<close>

definition process_table :: "item_data list \<Rightarrow> table \<Rightarrow> error + item_data list" where
  "process_table table_data rows =
     (if length rows > 1 then
        (let header_rows = take (min 3 (length rows)) rows;
             hd_res = analyse_headers header_rows;
             header_mapping = fst hd_res;
             has_test_data = snd hd_res
         in if has_test_data \<and> hm_len header_mapping \<ge> 2 then
              (let start_row = length header_rows;
                   location_groups = snd (extract_rows header_mapping table_data (drop start_row rows))
               in emit_groups table_data location_groups)
            else Inr table_data)
      else Inr table_data)"

fun scan_tables :: "item_data list \<Rightarrow> table list \<Rightarrow> error + item_data list" where
  "scan_tables table_data [] = Inr table_data"
| "scan_tables table_data (t # ts) =
     (case process_table table_data t of
        Inl e \<Rightarrow> Inl e
      | Inr table_data' \<Rightarrow>
          if table_data' \<noteq> [] then Inr table_data' else scan_tables table_data' ts)"

section \<open>The text fallback\<close>

text \<open>
  \<open>extract_from_text\<close> runs three patterns with \<open>re.findall\<close> and appends a record for
  each match. The first is
  \<open>([^\n::]+)[::]\s*([^\n((]+)[((]([^\n))]+)[))]\<close>, each colon and parenthesis in its
  ASCII and its full-width form (U+FF1A, U+FF08, U+FF09); its matches go through the same
  filter as the table rows. The other two are matched with \<open>re.DOTALL\<close>, so \<open>.\<close> is any
  character; they use the phrases U+82AF U+6837 U+6297 U+538B U+5F3A U+5EA6 ("core
  compressive strength"), U+7ED3 U+8BBA ("conclusion"), U+5E8F U+53F7 ("serial number"),
  U+68C0 U+6D4B U+90E8 U+4F4D ("test location"), U+5F3A U+5EA6 U+7B49 U+7EA7 ("strength
  grade"), and the verdicts U+5408 U+683C and U+4E0D U+5408 U+683C.
\<close>

definition generic_pattern :: re where
  "generic_pattern =
     Seqs [Grp 1 (Plus (NoneOf [10, 58, 65306])), OneOf [65306, 58], Star Space,
           Grp 2 (Plus (NoneOf [10, 65288, 40])), OneOf [65288, 40],
           Grp 3 (Plus (NoneOf [10, 65289, 41])), OneOf [65289, 41]]"

definition core_strength :: pystr where
  "core_strength = [33455, 26679, 25239, 21387, 24378, 24230]"

definition conclusion :: pystr where
  "conclusion = [32467, 35770]"

definition verdict :: re where
  "verdict = Alt (Str [21512, 26684]) (Str [19981, 21512, 26684])"

definition decimal_mpa :: "nat \<Rightarrow> re" where
  "decimal_mpa n =
     Seqs [Grp n (Seqs [Plus Digit, Lit 46, Plus Digit]), Star Space, Str (asc ''MPa'')]"

definition concrete_pattern :: re where
  "concrete_pattern =
     Seqs [Str core_strength, StarLazy AnyChar, Str conclusion, StarLazy AnyChar,
           decimal_mpa 1, StarLazy AnyChar, Grp 2 verdict]"

definition table_pattern :: re where
  "table_pattern =
     Seqs [Str [24207, 21495], StarLazy AnyChar, Str [26816, 27979, 37096, 20301],
           StarLazy AnyChar, Str [24378, 24230, 31561, 32423], StarLazy AnyChar,
           Str core_strength, StarLazy AnyChar, Str conclusion, StarLazy AnyChar,
           Grp 1 (Plus Digit), StarLazy AnyChar, Grp 2 (Plus NonSpace), StarLazy AnyChar,
           Lit 67, Plus Digit, StarLazy AnyChar, decimal_mpa 3, StarLazy AnyChar,
           Grp 4 verdict]"

definition concrete_label :: pystr where
  "concrete_label = [28151, 20957, 22303, 25239, 21387, 24378, 24230]"

definition generic_item :: "caps \<Rightarrow> item_data" where
  "generic_item m =
     \<lparr>test_item = strip (group m 1), measured_value = strip (group m 2),
      judgment_val = strip (group m 3)\<rparr>"

definition concrete_item :: "caps \<Rightarrow> item_data" where
  "concrete_item m =
     \<lparr>test_item = concrete_label, measured_value = group m 1 @ asc '' MPa'',
      judgment_val = group m 2\<rparr>"

definition table_item :: "caps \<Rightarrow> item_data" where
  "table_item m =
     \<lparr>test_item = concrete_label @ [40, 37096, 20301] @ group m 1 @ [41],
      measured_value = group m 3 @ asc '' MPa'',
      judgment_val = group m 4\<rparr>"

definition extract_from_text :: "pystr \<Rightarrow> item_data list" where
  "extract_from_text doc_text =
     filter valid_item (map generic_item (findall generic_pattern doc_text))
     @ map concrete_item (findall concrete_pattern doc_text)
     @ map table_item (findall table_pattern doc_text)"

section \<open>Documents\<close>

text \<open>
  \<open>extract_table_data\<close>: the tables first, then, if they gave nothing, the text of the
  paragraphs joined by newlines.
\<close>

definition doc_text_of :: "document \<Rightarrow> pystr" where
  "doc_text_of doc = join [10] (paragraphs doc)"

definition extract_table_data :: "document \<Rightarrow> error + item_data list" where
  "extract_table_data doc =
     (case scan_tables [] (tables doc) of
        Inl e \<Rightarrow> Inl e
      | Inr table_data \<Rightarrow>
          if table_data = [] then Inr (extract_from_text (doc_text_of doc))
          else Inr table_data)"

text \<open>
  The report number and the sample name: the first of three labelled patterns that is
  found, its group stripped, else the empty string. The labels are
  U+62A5 U+544A U+7F16 U+53F7, U+53D7 U+63A7 U+7F16 U+53F7, U+7F16 U+53F7 and
  U+6837 U+54C1 U+540D U+79F0, U+5DE5 U+7A0B U+540D U+79F0, U+9879 U+76EE U+540D U+79F0.
\<close>

definition code_char :: "nat \<Rightarrow> bool" where
  "code_char c = ((65 \<le> c \<and> c \<le> 90) \<or> (97 \<le> c \<and> c \<le> 122) \<or> (48 \<le> c \<and> c \<le> 57) \<or> c = 45)"

fun first_group :: "re list \<Rightarrow> pystr \<Rightarrow> pystr" where
  "first_group [] doc_text = []"
| "first_group (p # ps) doc_text =
     (case re_search p doc_text of
        Some m \<Rightarrow> strip (group m 1)
      | None \<Rightarrow> first_group ps doc_text)"

definition extract_report_number :: "pystr \<Rightarrow> pystr" where
  "extract_report_number doc_text =
     first_group [labelled [25253, 21578, 32534, 21495] (Plus (Cls code_char)),
                  labelled [21463, 25511, 32534, 21495] (Plus (Cls code_char)),
                  labelled [32534, 21495] (Plus (Cls code_char))] doc_text"

definition extract_sample_name :: "pystr \<Rightarrow> pystr" where
  "extract_sample_name doc_text =
     first_group [labelled [26679, 21697, 21517, 31216] (Plus (NoneOf [10, 13])),
                  labelled [24037, 31243, 21517, 31216] (Plus (NoneOf [10, 13])),
                  labelled [39033, 30446, 21517, 31216] (Plus (NoneOf [10, 13]))] doc_text"

text \<open>
  \<open>process_document\<close> for a document that python-docx has read. It returns the records
  or \<open>None\<close>, and prints at most one line: the warning that no data was found, or the
  error message of the \<open>except\<close> branch.
\<close>

record detection_record =
  r_report_number :: pystr
  r_sample_name :: pystr
  r_test_item :: pystr
  r_measured_value :: pystr
  r_judgment :: pystr
  r_test_date :: pystr

datatype notice = NoDataWarning | ProcessingError error

definition process_document :: "document \<Rightarrow> notice list \<times> detection_record list option" where
  "process_document doc =
     (let doc_text = doc_text_of doc;
          report_number = extract_report_number doc_text;
          sample_name = extract_sample_name doc_text;
          test_date = extract_test_date doc_text
      in case extract_table_data doc of
           Inl e \<Rightarrow> ([ProcessingError e], None)
         | Inr table_data \<Rightarrow>
             if table_data = [] then ([NoDataWarning], None)
             else ([], Some (map (\<lambda>item.
                     \<lparr>r_report_number = report_number, r_sample_name = sample_name,
                      r_test_item = test_item item, r_measured_value = measured_value item,
                      r_judgment = judgment_val item, r_test_date = test_date\<rparr>) table_data)))"

text \<open>
  The loop of \<open>process_all_documents\<close> over the documents of the folder: the records of
  a document are added to \<open>self.results\<close> when \<open>process_document\<close> returned a non-empty
  list.
\<close>

fun process_all_documents :: "detection_record list \<Rightarrow> document list \<Rightarrow> detection_record list" where
  "process_all_documents results [] = results"
| "process_all_documents results (doc # docs) =
     (case snd (process_document doc) of
        Some rs \<Rightarrow> process_all_documents (if rs \<noteq> [] then results @ rs else results) docs
      | None \<Rightarrow> process_all_documents results docs)"

section \<open>Notions used in the statements\<close>

text \<open>
  \<open>carried_label hm i rows\<close> is the label the claims call the most recently retained one:
  the last non-empty stripped text in column \<open>i\<close> among those of \<open>rows\<close> that are wide
  enough to be read, and the empty string if there is none.
\<close>

definition carried_label :: "header_mapping \<Rightarrow> nat \<Rightarrow> row list \<Rightarrow> pystr" where
  "carried_label hm i rows =
     (case filter (\<lambda>t. t \<noteq> [])
             (map (\<lambda>cells. strip (cells ! i)) (filter (\<lambda>cells. length cells > max_col hm) rows)) of
        [] \<Rightarrow> []
      | ls \<Rightarrow> last ls)"

text \<open>
  \<open>role_hits r header_rows\<close> lists, in the order of the header loops (row by row, cell by
  cell), the column indices of the cells that take role \<open>r\<close>.
\<close>

definition role_hits :: "role \<Rightarrow> row list \<Rightarrow> nat list" where
  "role_hits r header_rows =
     concat (map (\<lambda>cells. map fst (filter (\<lambda>ic. classify (strip (snd ic)) = Some r)
                                             (enumerate 0 cells))) header_rows)"


text \<open>
  The invariant of a raw item record: a field is \<open>filled\<close> when it is not empty and not
  made of whitespace only; a record is well formed when its three fields are filled and
  its item is neither the placeholder nor a text starting with the placeholder's prefix.
\<close>

definition filled :: "pystr \<Rightarrow> bool" where
  "filled s = (s \<noteq> [] \<and> \<not> list_all is_space s)"

definition record_ok :: "item_data \<Rightarrow> bool" where
  "record_ok it =
     (filled (test_item it) \<and> filled (measured_value it) \<and> filled (judgment_val it)
      \<and> test_item it \<noteq> blank_below \<and> \<not> startswith (test_item it) below_prefix)"




section \<open>Example inputs\<close>

text \<open>
  Inputs used to run the definitions: a header row with the cells
  U+68C0 U+6D4B U+90E8 U+4F4D ("test location"), U+5B9E U+6D4B U+503C ("measured value")
  and U+5355 U+9879 U+5224 U+5B9A ("single judgment"), and rows and items of ASCII text.
\<close>

definition ex_header :: row where
  "ex_header =
     [[26816, 27979, 37096, 20301], [23454, 27979, 20540], [21333, 39033, 21028, 23450]]"

definition ex_mapping :: header_mapping where
  "ex_mapping = fst (analyse_headers [ex_header, [], []])"

definition ex_row :: "string \<Rightarrow> string \<Rightarrow> string \<Rightarrow> row" where
  "ex_row a b c = [asc a, asc b, asc c]"

definition ex_item :: "string \<Rightarrow> string \<Rightarrow> string \<Rightarrow> item_data" where
  "ex_item a b c = \<lparr>test_item = asc a, measured_value = asc b, judgment_val = asc c\<rparr>"


definition ex_bucket :: "string \<Rightarrow> string \<Rightarrow> string list \<Rightarrow> bucket" where
  "ex_bucket loc v vals =
     \<lparr>b_location = asc loc, b_judgment = asc ''OK'',
      b_values = map (\<lambda>s. py_float (asc s)) vals, sample_item = ex_item loc v ''OK''\<rparr>"

section \<open>Evaluation on concrete inputs\<close>

text \<open>
  Facts that let the simplifier run the definitions above on concrete strings: literals,
  the character classes on the ranges that occur (ASCII, CJK ideographs, full-width
  punctuation), and the names of the pattern syntax.
\<close>

lemma asc_Nil [simp]: "asc [] = []"
  by (simp add: asc_def)

lemma asc_Cons [simp]: "asc (c # cs) = of_char c # asc cs"
  by (simp add: asc_def)

lemma digit_value_ascii:
  "c < 1632 \<Longrightarrow> digit_value c = (if 48 \<le> c \<and> c < 58 then Some (c - 48) else None)"
  by (simp add: digit_value_def nd_starts_def)

lemma is_digit_ascii: "c < 1632 \<Longrightarrow> is_digit c = (48 \<le> c \<and> c < 58)"
  by (simp add: is_digit_def digit_value_ascii)

lemma is_digit_cjk: "7258 \<le> c \<Longrightarrow> c < 42528 \<Longrightarrow> \<not> is_digit c"
  by (simp add: is_digit_def digit_value_def nd_starts_def)

lemma is_digit_halfwidth: "44026 \<le> c \<Longrightarrow> c < 65296 \<Longrightarrow> \<not> is_digit c"
  by (simp add: is_digit_def digit_value_def nd_starts_def)

lemma is_digit_fullwidth: "65306 \<le> c \<Longrightarrow> c < 66720 \<Longrightarrow> \<not> is_digit c"
  by (simp add: is_digit_def digit_value_def nd_starts_def)

lemma seq_results_Nil [simp]: "seq_results b [] = []"
  by (simp add: seq_results_def)

lemma seq_results_Cons [simp]: "seq_results b ((s, c) # rs) = bt b s c @ seq_results b rs"
  by (simp add: seq_results_def)

lemma rep_results_Nil [simp]: "rep_results a n [] = []"
  by (simp add: rep_results_def)

lemma rep_results_Cons [simp]:
  "rep_results a n ((s, c) # rs) = (if length s < n then bt a s c else []) @ rep_results a n rs"
  by (simp add: rep_results_def)

lemma grp_results_Nil [simp]: "grp_results n s [] = []"
  by (simp add: grp_results_def)

lemma grp_results_Cons [simp]:
  "grp_results n s ((s', c) # rs) = (s', (n, take (length s - length s') s) # c) # grp_results n s rs"
  by (simp add: grp_results_def)

lemma bt_Seq: "bt (Seq a b) s c = seq_results b (bt a s c)"
  by (simp add: seq_results_def)

lemma bt_Star: "bt (Star a) s c = rep_results (Star a) (length s) (bt a s c) @ [(s, c)]"
  by (simp add: rep_results_def)

lemma bt_StarLazy:
  "bt (StarLazy a) s c = (s, c) # rep_results (StarLazy a) (length s) (bt a s c)"
  by (simp add: rep_results_def)

lemma bt_Grp: "bt (Grp n a) s c = grp_results n s (bt a s c)"
  by (simp add: grp_results_def)

declare bt.simps(4,6,7,8) [simp del]

lemmas bt_eval = bt_Seq bt_Star bt_StarLazy bt_Grp


lemmas char_eval = is_digit_ascii is_digit_cjk is_digit_halfwidth is_digit_fullwidth
  digit_value_ascii is_space_def

lemmas re_eval = Lit_def OneOf_def NoneOf_def Digit_def NonDigit_def Space_def NonSpace_def
  AnyChar_def Opt_def Plus_def Str_def re_match_def group_def bt_eval


lemma floor_rat_numeral [simp]:
  "\<lfloor>numeral a / numeral b :: rat\<rfloor> = numeral a div numeral b"
  using floor_divide_of_int_eq [of "numeral a" "numeral b", where ?'a = rat] by simp

lemma ceiling_rat_numeral [simp]:
  "\<lceil>numeral a / numeral b :: rat\<rceil> = - ((- numeral a) div numeral b)"
  using floor_divide_of_int_eq [of "- numeral a" "numeral b", where ?'a = rat]
  by (simp add: ceiling_def)

declare findall.simps [simp del]

lemmas float_eval = py_float_def digits_val_def fl_def ilog2_def bit_length.simps pow2_def
  round_half_even_def py_round_def fadd_def fsum_def fdiv_nat_def mean_def fmt1_def
  str_nat.simps str_int_def Let_def

lemmas strip_eval = strip_def lstrip_def rstrip_def

lemmas header_eval = test_item_keywords_def measured_value_keywords_def judgment_keywords_def
  any_in_def classify_def scan_cell_def scan_header_row_def analyse_headers_def hm_values_def
  hm_len_def max_col_def List.map_filter_def enumerate_eq_zip

lemmas row_eval = build_item_def blank_below_def below_prefix_def valid_item_def row_step_def
  extract_rows_def Let_def

lemmas bucket_eval = number_re_def bucket_key_def bucket_item_def leading_number_re_def
  unit_re_def representative_def emit_buckets_def process_table_def

lemmas ex_eval = ex_header_def ex_row_def ex_item_def ex_mapping_def ex_bucket_def

lemmas table_eval = ex_eval header_eval strip_eval row_eval bucket_eval re_eval char_eval
  float_eval

lemmas text_eval = extract_from_text_def generic_pattern_def concrete_pattern_def
  table_pattern_def core_strength_def conclusion_def verdict_def decimal_mpa_def
  concrete_label_def generic_item_def concrete_item_def table_item_def findall.simps
  doc_text_of_def strip_eval valid_item_def blank_below_def below_prefix_def


section \<open>Test dates\<close>






section \<open>The loop over the tables and the fallback\<close>

lemma process_table_short:
  assumes "length rows \<le> 3"
  shows "process_table table_data rows = Inr table_data"
proof -
  have "drop (length (take (min 3 (length rows)) rows)) rows = []"
    using assms by simp
  then show ?thesis
    by (simp add: process_table_def Let_def extract_rows_def)
qed

lemma scan_tables_all_empty:
  "\<forall>t\<in>set ts. process_table [] t = Inr [] \<Longrightarrow> scan_tables [] ts = Inr []"
  by (induction ts) auto

lemma scan_tables_first:
  assumes "\<forall>p\<in>set pre. process_table [] p = Inr []"
    and "process_table [] t = Inr rs" and "rs \<noteq> []"
  shows "scan_tables [] (pre @ t # post) = Inr rs"
  using assms by (induction pre) auto

lemma extract_table_data_short:
  assumes "\<forall>t\<in>set (tables doc). length t \<le> 3"
  shows "scan_tables [] (tables doc) = Inr []"
    and "extract_table_data doc = Inr (extract_from_text (doc_text_of doc))"
proof -
  from assms have "\<forall>t\<in>set (tables doc). process_table [] t = Inr []"
    by (simp add: process_table_short)
  then show "scan_tables [] (tables doc) = Inr []"
    by (rule scan_tables_all_empty)
  then show "extract_table_data doc = Inr (extract_from_text (doc_text_of doc))"
    by (simp add: extract_table_data_def)
qed

lemma ex_table_one:
  "process_table [] [ex_header, [], [], ex_row ''A1'' ''1.5'' ''OK'']
   = Inr [ex_item ''A1'' ''1.5'' ''OK'']"
  by (simp add: table_eval)

lemma ex_text_one:
  "extract_from_text (asc ''load: 1.5 kN (ok)'') = [ex_item ''load'' ''1.5 kN'' ''ok'']"
  by (simp add: text_eval ex_eval re_eval char_eval)

text \<open>
  Claim C10. A table of at most three rows adds no record: with fewer than two rows the
  header analysis is not entered, and otherwise the first \<open>min(3, len(rows))\<close> rows are
  all of its rows, so that the slice of data rows is empty. A document all of whose
  tables are that short therefore yields no table record, and its result is that of the
  text fallback.
\<close>

theorem short_tables_emit_nothing:
  "(length rows \<le> 3 \<longrightarrow>
      drop (length (take (min 3 (length rows)) rows)) rows = []
      \<and> process_table [] rows = Inr [])
   \<and> ((\<forall>t\<in>set (tables doc). length t \<le> 3) \<longrightarrow>
        scan_tables [] (tables doc) = Inr []
        \<and> extract_table_data doc = Inr (extract_from_text (doc_text_of doc)))"
  using extract_table_data_short [of doc] by (simp add: process_table_short)

theorem short_tables_emit_nothing_witness:
  "length [ex_header, ex_row ''C1'' ''23.4 MPa'' ''OK'', ex_row [] ''23.6 MPa'' ''OK''] \<le> 3
   \<and> process_table [] [ex_header, ex_row ''C1'' ''23.4 MPa'' ''OK'',
                        ex_row [] ''23.6 MPa'' ''OK''] = Inr []
   \<and> list_all (\<lambda>t. length t \<le> 3)
        (tables \<lparr>paragraphs = [asc ''load: 1.5 kN (ok)''],
                 tables = [[ex_header, ex_row ''C1'' ''23.4 MPa'' ''OK'',
                            ex_row [] ''23.6 MPa'' ''OK'']]\<rparr>)
   \<and> extract_table_data \<lparr>paragraphs = [asc ''load: 1.5 kN (ok)''],
                           tables = [[ex_header, ex_row ''C1'' ''23.4 MPa'' ''OK'',
                                      ex_row [] ''23.6 MPa'' ''OK'']]\<rparr>
       = Inr [ex_item ''load'' ''1.5 kN'' ''ok'']"
proof -
  let ?t = "[ex_header, ex_row ''C1'' ''23.4 MPa'' ''OK'', ex_row [] ''23.6 MPa'' ''OK'']"
  let ?d = "\<lparr>paragraphs = [asc ''load: 1.5 kN (ok)''], tables = [?t]\<rparr>"
  have ft: "extract_from_text (doc_text_of ?d) = [ex_item ''load'' ''1.5 kN'' ''ok'']"
    using ex_text_one by (simp add: doc_text_of_def)
  have len: "length ?t \<le> 3" by simp
  have all: "\<forall>t\<in>set (tables ?d). length t \<le> 3" by simp
  from short_tables_emit_nothing [of ?t ?d] len all ft show ?thesis
    by simp
qed

text \<open>
  Claim C6. When the tables before table \<open>t\<close> give no record and \<open>t\<close> gives the records
  \<open>rs\<close>, not none, the result of the table loop and of \<open>extract_table_data\<close> is exactly
  \<open>rs\<close>, whatever tables \<open>post\<close> follow: nothing of a later table is in it.
\<close>

theorem table_scan_short_circuits:
  assumes "tables doc = pre @ t # post"
    and "\<forall>p\<in>set pre. process_table [] p = Inr []"
    and "process_table [] t = Inr rs" and "rs \<noteq> []"
  shows "scan_tables [] (tables doc) = Inr rs \<and> extract_table_data doc = Inr rs"
  using scan_tables_first [OF assms(2-4), of post] assms(1,4)
  by (simp add: extract_table_data_def)

theorem table_scan_short_circuits_witness:
  "tables \<lparr>paragraphs = [asc ''load: 1.5 kN (ok)''],
           tables = [[ex_header], [ex_header, [], [], ex_row ''A1'' ''1.5'' ''OK''],
                     [ex_header, [], [], ex_row ''B2'' ''2.5'' ''OK'']]\<rparr>
     = [[ex_header]] @ [ex_header, [], [], ex_row ''A1'' ''1.5'' ''OK'']
        # [[ex_header, [], [], ex_row ''B2'' ''2.5'' ''OK'']]
   \<and> list_all (\<lambda>p. process_table [] p = Inr []) [[ex_header]]
   \<and> process_table [] [ex_header, [], [], ex_row ''A1'' ''1.5'' ''OK'']
       = Inr [ex_item ''A1'' ''1.5'' ''OK'']
   \<and> process_table [] [ex_header, [], [], ex_row ''B2'' ''2.5'' ''OK'']
       = Inr [ex_item ''B2'' ''2.5'' ''OK'']
   \<and> extract_table_data
        \<lparr>paragraphs = [asc ''load: 1.5 kN (ok)''],
         tables = [[ex_header], [ex_header, [], [], ex_row ''A1'' ''1.5'' ''OK''],
                   [ex_header, [], [], ex_row ''B2'' ''2.5'' ''OK'']]\<rparr>
       = Inr [ex_item ''A1'' ''1.5'' ''OK'']"
proof -
  let ?t1 = "[ex_header, [], [], ex_row ''A1'' ''1.5'' ''OK'']"
  let ?t2 = "[ex_header, [], [], ex_row ''B2'' ''2.5'' ''OK'']"
  let ?d = "\<lparr>paragraphs = [asc ''load: 1.5 kN (ok)''], tables = [[ex_header], ?t1, ?t2]\<rparr>"
  have a: "tables ?d = [[ex_header]] @ ?t1 # [?t2]" by simp
  have b: "\<forall>p\<in>set [[ex_header]]. process_table [] p = Inr []"
    by (simp add: process_table_short)
  have c: "process_table [] ?t2 = Inr [ex_item ''B2'' ''2.5'' ''OK'']"
    by (simp add: table_eval)
  have d: "[ex_item ''A1'' ''1.5'' ''OK''] \<noteq> []" by simp
  from table_scan_short_circuits [OF a b ex_table_one d] b c ex_table_one show ?thesis
    by simp
qed

text \<open>
  Claim C7. The result of \<open>extract_table_data\<close> is that of the text fallback, run on the
  joined paragraphs, when the table loop ends with no record, and is the table records,
  with no fallback, when there are any. When the result is empty, \<open>process_document\<close>
  returns \<open>None\<close> and prints only the warning, and the loop over the documents leaves
  the list of results as it was.
\<close>

theorem fallback_and_failure:
  "(scan_tables [] (tables doc) = Inr [] \<longrightarrow>
      extract_table_data doc = Inr (extract_from_text (doc_text_of doc)))
   \<and> (scan_tables [] (tables doc) = Inr table_data \<and> table_data \<noteq> [] \<longrightarrow>
      extract_table_data doc = Inr table_data)
   \<and> (extract_table_data doc = Inr [] \<longrightarrow>
      process_document doc = ([NoDataWarning], None)
      \<and> process_all_documents results (doc # docs) = process_all_documents results docs)"
  by (auto simp: extract_table_data_def process_document_def Let_def)

theorem fallback_and_failure_witness:
  "scan_tables [] (tables \<lparr>paragraphs = [asc ''nothing''], tables = [[ex_header]]\<rparr>) = Inr []
   \<and> extract_table_data \<lparr>paragraphs = [asc ''nothing''], tables = [[ex_header]]\<rparr> = Inr []
   \<and> process_document \<lparr>paragraphs = [asc ''nothing''], tables = [[ex_header]]\<rparr>
       = ([NoDataWarning], None)
   \<and> process_all_documents [] [\<lparr>paragraphs = [asc ''nothing''], tables = [[ex_header]]\<rparr>] = []
   \<and> scan_tables [] (tables \<lparr>paragraphs = [asc ''load: 1.5 kN (ok)''],
                               tables = [[ex_header, [], [], ex_row ''A1'' ''1.5'' ''OK'']]\<rparr>)
       = Inr [ex_item ''A1'' ''1.5'' ''OK'']
   \<and> extract_table_data \<lparr>paragraphs = [asc ''load: 1.5 kN (ok)''],
                           tables = [[ex_header, [], [], ex_row ''A1'' ''1.5'' ''OK'']]\<rparr>
       = Inr [ex_item ''A1'' ''1.5'' ''OK'']"
proof -
  let ?d = "\<lparr>paragraphs = [asc ''nothing''], tables = [[ex_header]]\<rparr>"
  let ?e = "\<lparr>paragraphs = [asc ''load: 1.5 kN (ok)''],
             tables = [[ex_header, [], [], ex_row ''A1'' ''1.5'' ''OK'']]\<rparr>"
  have s: "scan_tables [] (tables ?d) = Inr []"
    by (simp add: process_table_short)
  have t: "extract_from_text (doc_text_of ?d) = []"
    by (simp add: text_eval re_eval char_eval)
  have u: "scan_tables [] (tables ?e) = Inr [ex_item ''A1'' ''1.5'' ''OK'']"
    by (simp add: ex_table_one)
  from fallback_and_failure [of ?d "[]" "[]" "[]"] s t
  have 1: "extract_table_data ?d = Inr []" by simp
  with fallback_and_failure [of ?d "[]" "[]" "[]"]
  have 2: "process_document ?d = ([NoDataWarning], None)"
    and 3: "process_all_documents [] [?d] = []" by simp_all
  from fallback_and_failure [of ?e "[ex_item ''A1'' ''1.5'' ''OK'']"] u
  have 4: "extract_table_data ?e = Inr [ex_item ''A1'' ''1.5'' ''OK'']" by simp
  from s 1 2 3 u 4 show ?thesis by simp
qed

section \<open>Header analysis\<close>

lemma startswith_iff: "startswith s p \<longleftrightarrow> (\<exists>q. s = p @ q)"
  by (induction s p rule: startswith.induct) auto

lemma contains_iff: "contains s k \<longleftrightarrow> (\<exists>p q. s = p @ k @ q)"
proof (induction s)
  case Nil
  then show ?case by auto
next
  case (Cons c s)
  show ?case
  proof
    assume "contains (c # s) k"
    then consider "startswith (c # s) k" | "contains s k" by auto
    then show "\<exists>p q. c # s = p @ k @ q"
    proof cases
      case 1
      then obtain q where "c # s = k @ q" by (auto simp: startswith_iff)
      then have "c # s = [] @ k @ q" by simp
      then show ?thesis by blast
    next
      case 2
      with Cons.IH obtain p q where "s = p @ k @ q" by auto
      then have "c # s = (c # p) @ k @ q" by simp
      then show ?thesis by blast
    qed
  next
    assume "\<exists>p q. c # s = p @ k @ q"
    then obtain p q where eq: "c # s = p @ k @ q" by auto
    show "contains (c # s) k"
    proof (cases p)
      case Nil
      with eq have "startswith (c # s) k" by (auto simp: startswith_iff)
      then show ?thesis by simp
    next
      case (Cons a p')
      with eq have "s = p' @ k @ q" by simp
      with Cons.IH have "contains s k" by auto
      then show ?thesis by simp
    qed
  qed
qed

lemma any_in_iff: "any_in kws t \<longleftrightarrow> (\<exists>k\<in>set kws. \<exists>p q. t = p @ k @ q)"
  by (simp add: any_in_def list_ex_iff contains_iff)

lemma scan_cell_fst:
  "fst (scan_cell st ic) r = (if classify (strip (snd ic)) = Some r then Some (fst ic) else fst st r)"
  by (auto simp: scan_cell_def split: option.splits)

lemma scan_cell_flag:
  "snd st = (dom (fst st) \<noteq> {}) \<Longrightarrow> snd (scan_cell st ic) = (dom (fst (scan_cell st ic)) \<noteq> {})"
  by (auto simp: scan_cell_def split: option.splits)

lemma foldl_scan_cell_fst:
  "fst (foldl scan_cell st ics) r =
     (let hs = map fst (filter (\<lambda>ic. classify (strip (snd ic)) = Some r) ics)
      in if hs = [] then fst st r else Some (last hs))"
proof (induction ics arbitrary: st)
  case Nil
  then show ?case by simp
next
  case (Cons ic ics)
  show ?case
    by (simp add: Cons.IH scan_cell_fst Let_def)
qed

lemma foldl_scan_cell_flag:
  "snd st = (dom (fst st) \<noteq> {}) \<Longrightarrow>
   snd (foldl scan_cell st ics) = (dom (fst (foldl scan_cell st ics)) \<noteq> {})"
proof (induction ics arbitrary: st)
  case Nil
  then show ?case by simp
next
  case (Cons ic ics)
  from Cons.prems have "snd (scan_cell st ic) = (dom (fst (scan_cell st ic)) \<noteq> {})"
    by (rule scan_cell_flag)
  then show ?case
    using Cons.IH [of "scan_cell st ic"] by simp
qed

lemma foldl_scan_rows_fst:
  "fst (foldl scan_header_row st rows) r =
     (if role_hits r rows = [] then fst st r else Some (last (role_hits r rows)))"
proof (induction rows arbitrary: st)
  case Nil
  then show ?case by (simp add: role_hits_def)
next
  case (Cons cells rows)
  let ?h = "map fst (filter (\<lambda>ic. classify (strip (snd ic)) = Some r) (enumerate 0 cells))"
  have hits: "role_hits r (cells # rows) = ?h @ role_hits r rows"
    by (simp add: role_hits_def)
  have row: "fst (scan_header_row st cells) r = (if ?h = [] then fst st r else Some (last ?h))"
    by (simp add: scan_header_row_def foldl_scan_cell_fst Let_def)
  have "fst (foldl scan_header_row st (cells # rows)) r
          = (if role_hits r rows = [] then fst (scan_header_row st cells) r
             else Some (last (role_hits r rows)))"
    by (simp add: Cons.IH)
  then show ?case
    unfolding hits row by simp
qed

lemma foldl_scan_rows_flag:
  "snd st = (dom (fst st) \<noteq> {}) \<Longrightarrow>
   snd (foldl scan_header_row st rows) = (dom (fst (foldl scan_header_row st rows)) \<noteq> {})"
proof (induction rows arbitrary: st)
  case Nil
  then show ?case by simp
next
  case (Cons cells rows)
  from Cons.prems
  have "snd (scan_header_row st cells) = (dom (fst (scan_header_row st cells)) \<noteq> {})"
    unfolding scan_header_row_def by (rule foldl_scan_cell_flag)
  then show ?case
    using Cons.IH [of "scan_header_row st cells"] by simp
qed

lemma analyse_headers_role:
  "fst (analyse_headers header_rows) r =
     (if role_hits r header_rows = [] then None else Some (last (role_hits r header_rows)))"
  by (simp add: analyse_headers_def foldl_scan_rows_fst)

lemma analyse_headers_flag:
  "snd (analyse_headers header_rows) = (dom (fst (analyse_headers header_rows)) \<noteq> {})"
  unfolding analyse_headers_def by (rule foldl_scan_rows_flag) simp

lemma role_UNIV: "(UNIV :: role set) = {TestItem, MeasuredValue, Judgment}"
  using role.exhaust by auto

lemma hm_len_card: "hm_len hm = card (dom hm)"
proof -
  have "dom hm = (if hm TestItem = None then {} else {TestItem})
                 \<union> (if hm MeasuredValue = None then {} else {MeasuredValue})
                 \<union> (if hm Judgment = None then {} else {Judgment})"
  proof (rule set_eqI)
    fix r show "r \<in> dom hm \<longleftrightarrow>
      r \<in> (if hm TestItem = None then {} else {TestItem})
          \<union> (if hm MeasuredValue = None then {} else {MeasuredValue})
          \<union> (if hm Judgment = None then {} else {Judgment})"
      by (cases r) (auto simp: dom_def)
  qed
  then show ?thesis
    by (cases "hm TestItem"; cases "hm MeasuredValue"; cases "hm Judgment")
       (simp_all add: hm_len_def hm_values_def List.map_filter_def)
qed

lemma hm_len_pos: "2 \<le> hm_len hm \<Longrightarrow> dom hm \<noteq> {}"
  by (auto simp: hm_len_card)

lemma process_table_skipped:
  assumes "hm_len (fst (analyse_headers (take (min 3 (length rows)) rows))) < 2"
  shows "process_table td rows = Inr td"
  using assms by (simp add: process_table_def Let_def)

lemma process_table_eligible:
  assumes "1 < length rows"
    and "2 \<le> hm_len (fst (analyse_headers (take (min 3 (length rows)) rows)))"
  shows "process_table td rows =
           emit_groups td (snd (extract_rows (fst (analyse_headers (take (min 3 (length rows)) rows)))
                                   td (drop (min 3 (length rows)) rows)))"
proof -
  have "snd (analyse_headers (take (min 3 (length rows)) rows))"
    using hm_len_pos [OF assms(2)] by (simp add: analyse_headers_flag)
  then show ?thesis
    using assms by (simp add: process_table_def Let_def min_def)
qed

section \<open>Row extraction: the carried item label\<close>

lemma extract_rows_snoc:
  "extract_rows hm td (pre @ [cells]) = row_step hm td (extract_rows hm td pre) (length pre, cells)"
  by (simp add: extract_rows_def enumerate_append_eq)

lemma row_step_location:
  assumes "hm TestItem = Some i" and "n > 0 \<or> cur = []"
  shows "fst (row_step hm td (cur, g) (n, cells)) =
           (if length cells > max_col hm \<and> strip (cells ! i) \<noteq> [] then strip (cells ! i) else cur)"
  using assms by (auto simp: row_step_def build_item_def Let_def)

lemma carried_label_Cons:
  "carried_label hm i (cells # rows) =
     (case filter (\<lambda>t. t \<noteq> [])
             (map (\<lambda>cells. strip (cells ! i)) (filter (\<lambda>cells. length cells > max_col hm) rows)) of
        [] \<Rightarrow> (if length cells > max_col hm \<and> strip (cells ! i) \<noteq> [] then strip (cells ! i) else [])
      | ls \<Rightarrow> last ls)"
  by (auto simp: carried_label_def split: list.splits)

lemma foldl_row_step_location:
  assumes "hm TestItem = Some i" and "n > 0 \<or> cur = []"
  shows "fst (foldl (row_step hm td) (cur, g) (enumerate n rows)) =
           (case filter (\<lambda>t. t \<noteq> [])
                   (map (\<lambda>cells. strip (cells ! i))
                        (filter (\<lambda>cells. length cells > max_col hm) rows)) of
              [] \<Rightarrow> cur
            | ls \<Rightarrow> last ls)"
  using assms(2)
proof (induction rows arbitrary: n cur g)
  case Nil
  then show ?case by simp
next
  case (Cons cells rows)
  let ?st = "row_step hm td (cur, g) (n, cells)"
  have loc: "fst ?st = (if length cells > max_col hm \<and> strip (cells ! i) \<noteq> []
                        then strip (cells ! i) else cur)"
    using row_step_location [where hm = hm and i = i and n = n and cur = cur] assms(1) Cons.prems
    by simp
  have "foldl (row_step hm td) (cur, g) (enumerate n (cells # rows))
          = foldl (row_step hm td) (fst ?st, snd ?st) (enumerate (Suc n) rows)"
    by simp
  also have "fst \<dots> =
      (case filter (\<lambda>t. t \<noteq> [])
              (map (\<lambda>cells. strip (cells ! i))
                   (filter (\<lambda>cells. length cells > max_col hm) rows)) of
         [] \<Rightarrow> fst ?st
       | ls \<Rightarrow> last ls)"
    by (rule Cons.IH) simp
  finally show ?case
    using loc by (auto split: list.splits)
qed

lemma extract_rows_location:
  assumes "hm TestItem = Some i"
  shows "fst (extract_rows hm td rows) = carried_label hm i rows"
  using foldl_row_step_location [where hm = hm and i = i and n = 0 and cur = "[]"
      and td = td and g = "[]" and rows = rows] assms
  by (simp add: extract_rows_def carried_label_def)

lemma build_item_test_item:
  assumes "hm TestItem = Some i"
  shows "test_item (fst (build_item hm td n cur cells)) =
           (if strip (cells ! i) = [] \<and> n > 0 then cur else strip (cells ! i))"
    and "snd (build_item hm td n cur cells) =
           (if strip (cells ! i) = [] \<and> n > 0 then cur else strip (cells ! i))"
  using assms by (auto simp: build_item_def Let_def)

text \<open>
  Claim C8. Let a data row \<open>cells\<close>, wide enough to be read, come after the data rows
  \<open>pre\<close>. The label carried into the row is the last non-empty item text among the rows
  of \<open>pre\<close> that were read. The item field built for the row is that carried label when
  the item cell is blank and the row is not the first, and the stripped cell text
  otherwise. The label carried out of the row is the item field just built, whether the
  filter keeps the row or not, and so after any further rows \<open>post\<close> the carried label is
  again the last non-empty item text read, rows dropped by the filter included.
\<close>

theorem item_label_carried_forward:
  assumes "hm TestItem = Some i" and "length cells > max_col hm"
  shows "fst (extract_rows hm td pre) = carried_label hm i pre
    \<and> test_item (fst (build_item hm td (length pre) (carried_label hm i pre) cells))
        = (if strip (cells ! i) = [] \<and> pre \<noteq> [] then carried_label hm i pre
           else strip (cells ! i))
    \<and> fst (extract_rows hm td (pre @ [cells]))
        = test_item (fst (build_item hm td (length pre) (carried_label hm i pre) cells))
    \<and> fst (extract_rows hm td (pre @ cells # post)) = carried_label hm i (pre @ cells # post)"
proof -
  have a: "fst (extract_rows hm td pre) = carried_label hm i pre"
    using extract_rows_location [where hm = hm and i = i] assms(1) by simp
  have b: "test_item (fst (build_item hm td (length pre) (carried_label hm i pre) cells))
        = (if strip (cells ! i) = [] \<and> pre \<noteq> [] then carried_label hm i pre
           else strip (cells ! i))"
    using build_item_test_item(1) [where hm = hm and i = i] assms(1) by simp
  have "extract_rows hm td (pre @ [cells])
          = row_step hm td (carried_label hm i pre, snd (extract_rows hm td pre)) (length pre, cells)"
    using a by (simp add: extract_rows_snoc flip: a)
  then have c: "fst (extract_rows hm td (pre @ [cells]))
        = test_item (fst (build_item hm td (length pre) (carried_label hm i pre) cells))"
    using assms build_item_test_item [where hm = hm and i = i]
    by (simp add: row_step_def Let_def)
  have d: "fst (extract_rows hm td (pre @ cells # post)) = carried_label hm i (pre @ cells # post)"
    using extract_rows_location [where hm = hm and i = i] assms(1) by simp
  from a b c d show ?thesis by simp
qed


lemma ex_mapping_roles:
  "ex_mapping TestItem = Some 0" "ex_mapping MeasuredValue = Some 1"
  "ex_mapping Judgment = Some 2" "max_col ex_mapping = 2" "hm_len ex_mapping = 3"
  by (simp_all add: ex_eval header_eval strip_eval char_eval)

theorem item_label_carried_forward_witness:
  "ex_mapping TestItem = Some 0
   \<and> length (ex_row [] ''23.4'' ''ok'') > max_col ex_mapping
   \<and> \<not> valid_item (fst (build_item ex_mapping [] 0 [] (ex_row '' Beam A'' [] ''ok'')))
   \<and> carried_label ex_mapping 0 [ex_row '' Beam A'' [] ''ok''] = asc ''Beam A''
   \<and> test_item (fst (build_item ex_mapping [] 1 (asc ''Beam A'') (ex_row [] ''23.4'' ''ok'')))
       = asc ''Beam A''
   \<and> fst (extract_rows ex_mapping [] [ex_row '' Beam A'' [] ''ok'', ex_row [] ''23.4'' ''ok''])
       = asc ''Beam A''"
proof -
  let ?pre = "[ex_row '' Beam A'' [] ''ok'']"
  let ?cells = "ex_row [] ''23.4'' ''ok''"
  have a: "ex_mapping TestItem = Some 0" by (rule ex_mapping_roles)
  have b: "length ?cells > max_col ex_mapping"
    by (simp add: ex_mapping_roles ex_row_def)
  have c: "\<not> valid_item (fst (build_item ex_mapping [] 0 [] (ex_row '' Beam A'' [] ''ok'')))"
    by (simp add: build_item_def valid_item_def ex_mapping_roles ex_row_def strip_eval
        is_space_def Let_def)
  have d: "carried_label ex_mapping 0 ?pre = asc ''Beam A''"
    by (simp add: carried_label_def ex_mapping_roles ex_row_def strip_eval is_space_def)
  have e: "strip (?cells ! 0) = []"
    by (simp add: ex_row_def strip_eval)
  from item_label_carried_forward [OF a b, of "[]" ?pre "[]"] d e
  have "test_item (fst (build_item ex_mapping [] 1 (asc ''Beam A'') ?cells)) = asc ''Beam A''"
    and "fst (extract_rows ex_mapping [] (?pre @ [?cells])) = asc ''Beam A''"
    by simp_all
  with a b c d show ?thesis by simp
qed

section \<open>Row extraction: the judgment of a blank cell\<close>

text \<open>
  Claim C2. The claim is that a blank judgment cell in a later data row takes the
  judgment of the record accepted before it. The source reads
  \<open>table_data[-1]['judgment'] if table_data else ""\<close>, but \<open>table_data\<close> only receives
  records after the row loop of a table, and the table loop stops at the first table that
  leaves it non-empty: while rows are read it is empty. Here the table has the example
  header, two more header rows and the data rows \<open>(A1, 1.5, OK)\<close> and \<open>(A1, 7.2, blank)\<close>:
  the judgment built for the second row is the empty string, the filter drops the row,
  and only the first row's record comes out.
\<close>

theorem blank_judgment_not_inherited:
  "judgment_val (fst (build_item ex_mapping [] 1 (asc ''A1'') (ex_row ''A1'' ''7.2'' []))) = []
   \<and> scan_tables [] [[ex_header, [], [], ex_row ''A1'' ''1.5'' ''OK'', ex_row ''A1'' ''7.2'' []]]
       = Inr [ex_item ''A1'' ''1.5'' ''OK'']"
proof -
  have "judgment_val (fst (build_item ex_mapping [] 1 (asc ''A1'') (ex_row ''A1'' ''7.2'' []))) = []"
    by (simp add: build_item_def ex_mapping_roles ex_row_def strip_eval Let_def)
  moreover have "process_table [] [ex_header, [], [], ex_row ''A1'' ''1.5'' ''OK'',
                                    ex_row ''A1'' ''7.2'' []]
                  = Inr [ex_item ''A1'' ''1.5'' ''OK'']"
    by (simp add: table_eval)
  ultimately show ?thesis by simp
qed

section \<open>Header analysis: the roles of the columns\<close>

lemma classify_iff:
  "classify t = Some TestItem \<longleftrightarrow> (\<exists>k\<in>set test_item_keywords. \<exists>p q. t = p @ k @ q)"
  "classify t = Some MeasuredValue \<longleftrightarrow>
     \<not> (\<exists>k\<in>set test_item_keywords. \<exists>p q. t = p @ k @ q)
     \<and> (\<exists>k\<in>set measured_value_keywords. \<exists>p q. t = p @ k @ q)"
  "classify t = Some Judgment \<longleftrightarrow>
     \<not> (\<exists>k\<in>set test_item_keywords. \<exists>p q. t = p @ k @ q)
     \<and> \<not> (\<exists>k\<in>set measured_value_keywords. \<exists>p q. t = p @ k @ q)
     \<and> (\<exists>k\<in>set judgment_keywords. \<exists>p q. t = p @ k @ q)"
  by (simp_all add: classify_def flip: any_in_iff)

lemma hm_len_hits:
  "hm_len (fst (analyse_headers header_rows)) = card {r. role_hits r header_rows \<noteq> []}"
proof -
  have "dom (fst (analyse_headers header_rows)) = {r. role_hits r header_rows \<noteq> []}"
    by (auto simp: dom_def analyse_headers_role)
  then show ?thesis by (simp add: hm_len_card)
qed

text \<open>
  Claim C3, as the code has it. A cell takes a role when its stripped text contains one
  of the role's keywords as a substring, the roles tried in the order item, value,
  judgment, so that a cell takes the first role of which it contains a keyword. The
  column recorded for a role is that of the last such cell in the order of the header
  loops, and the role is absent when there is no such cell. The number of entries of the
  mapping is the number of roles with such a cell; with fewer than two the table adds
  nothing and the loop goes on to the next table, and with two or more (and more than
  one row) the rows after the candidate header rows are extracted.
\<close>

theorem header_roles_by_substring:
  "(classify t = Some TestItem \<longleftrightarrow> (\<exists>k\<in>set test_item_keywords. \<exists>p q. t = p @ k @ q))
   \<and> (classify t = Some MeasuredValue \<longleftrightarrow>
        \<not> (\<exists>k\<in>set test_item_keywords. \<exists>p q. t = p @ k @ q)
        \<and> (\<exists>k\<in>set measured_value_keywords. \<exists>p q. t = p @ k @ q))
   \<and> (classify t = Some Judgment \<longleftrightarrow>
        \<not> (\<exists>k\<in>set test_item_keywords. \<exists>p q. t = p @ k @ q)
        \<and> \<not> (\<exists>k\<in>set measured_value_keywords. \<exists>p q. t = p @ k @ q)
        \<and> (\<exists>k\<in>set judgment_keywords. \<exists>p q. t = p @ k @ q))
   \<and> fst (analyse_headers header_rows) r =
        (if role_hits r header_rows = [] then None else Some (last (role_hits r header_rows)))
   \<and> hm_len (fst (analyse_headers header_rows)) = card {r. role_hits r header_rows \<noteq> []}
   \<and> (hm_len (fst (analyse_headers (take (min 3 (length rows)) rows))) < 2 \<longrightarrow>
        process_table [] rows = Inr [] \<and> scan_tables [] (rows # ts) = scan_tables [] ts)
   \<and> (1 < length rows \<and> 2 \<le> hm_len (fst (analyse_headers (take (min 3 (length rows)) rows))) \<longrightarrow>
        process_table td rows =
          emit_groups td
            (snd (extract_rows (fst (analyse_headers (take (min 3 (length rows)) rows))) td
                    (drop (min 3 (length rows)) rows))))"
  using classify_iff [of t] analyse_headers_role [of header_rows r] hm_len_hits [of header_rows]
    process_table_skipped [of rows "[]"] process_table_eligible [of rows td]
  by simp

text \<open>
  The claim as stated fails: the cell text U+9879 U+76EE \<open>A\<close> is in none of the keyword
  sets, yet it contains the keyword U+9879 U+76EE and its column is recorded for the item
  role.
\<close>

theorem header_keyword_membership_counterexample:
  "strip [39033, 30446, 65] \<notin> set test_item_keywords
   \<and> strip [39033, 30446, 65] \<notin> set measured_value_keywords
   \<and> strip [39033, 30446, 65] \<notin> set judgment_keywords
   \<and> fst (analyse_headers [[[39033, 30446, 65]], []]) TestItem = Some 0"
  by (simp add: header_eval strip_eval char_eval)

theorem header_roles_by_substring_witness:
  "classify [39033, 30446, 65] = Some TestItem
   \<and> role_hits TestItem [[[32467, 35770], [39033, 30446, 65]], [[26816, 27979, 39033, 30446]]]
       = [1, 0]
   \<and> fst (analyse_headers [[[32467, 35770], [39033, 30446, 65]], [[26816, 27979, 39033, 30446]]])
        TestItem = Some 0
   \<and> hm_len (fst (analyse_headers (take (min 3 (length [[asc ''No''], [asc ''1'']]))
                                         [[asc ''No''], [asc ''1'']]))) < 2
   \<and> process_table [] [[asc ''No''], [asc ''1'']] = Inr []
   \<and> 1 < length [ex_header, [], [], ex_row ''A1'' ''1.5'' ''OK'']
   \<and> 2 \<le> hm_len (fst (analyse_headers
                (take (min 3 (length [ex_header, [], [], ex_row ''A1'' ''1.5'' ''OK'']))
                      [ex_header, [], [], ex_row ''A1'' ''1.5'' ''OK''])))
   \<and> emit_groups []
        (snd (extract_rows (fst (analyse_headers
                (take (min 3 (length [ex_header, [], [], ex_row ''A1'' ''1.5'' ''OK'']))
                      [ex_header, [], [], ex_row ''A1'' ''1.5'' ''OK'']))) []
           (drop (min 3 (length [ex_header, [], [], ex_row ''A1'' ''1.5'' ''OK'']))
                 [ex_header, [], [], ex_row ''A1'' ''1.5'' ''OK''])))
       = Inr [ex_item ''A1'' ''1.5'' ''OK'']"
proof -
  let ?t = "[39033, 30446, 65]"
  let ?h = "[[[32467, 35770], ?t], [[26816, 27979, 39033, 30446]]]"
  let ?s = "[[asc ''No''], [asc ''1'']]"
  let ?e = "[ex_header, [], [], ex_row ''A1'' ''1.5'' ''OK'']"
  have k: "\<exists>k\<in>set test_item_keywords. \<exists>p q. ?t = p @ k @ q"
  proof -
    have "[39033, 30446] \<in> set test_item_keywords" by (simp add: test_item_keywords_def)
    moreover have "?t = [] @ [39033, 30446] @ [65]" by simp
    ultimately show ?thesis by blast
  qed
  have hits: "role_hits TestItem ?h = [1, 0]"
    by (simp add: role_hits_def header_eval strip_eval char_eval)
  have small: "hm_len (fst (analyse_headers (take (min 3 (length ?s)) ?s))) < 2"
    by (simp add: header_eval strip_eval char_eval)
  have len: "1 < length ?e" by simp
  have big: "2 \<le> hm_len (fst (analyse_headers (take (min 3 (length ?e)) ?e)))"
    by (simp add: ex_eval header_eval strip_eval char_eval)
  note inst = header_roles_by_substring [of ?t ?h TestItem, where td = "[]"]
  from inst [of ?s] k have 1: "classify ?t = Some TestItem" by blast
  from inst [of ?s] hits have 2: "fst (analyse_headers ?h) TestItem = Some 0" by simp
  from inst [of ?s] small have 3: "process_table [] ?s = Inr []" by blast
  from inst [of ?e] len big ex_table_one
  have 4: "emit_groups []
        (snd (extract_rows (fst (analyse_headers (take (min 3 (length ?e)) ?e))) []
           (drop (min 3 (length ?e)) ?e))) = Inr [ex_item ''A1'' ''1.5'' ''OK'']"
    by simp
  from 1 hits 2 small 3 len big 4 show ?thesis by blast
qed

section \<open>The invariant of the emitted records\<close>

lemma rstrip_last: "rstrip t \<noteq> [] \<Longrightarrow> \<not> is_space (last (rstrip t))"
proof -
  assume ne: "rstrip t \<noteq> []"
  then have d: "dropWhile is_space (rev t) \<noteq> []"
    by (simp add: rstrip_def)
  then have "\<not> is_space (hd (dropWhile is_space (rev t)))"
    by (rule hd_dropWhile)
  moreover have "last (rstrip t) = hd (dropWhile is_space (rev t))"
    using d by (simp add: rstrip_def last_rev)
  ultimately show ?thesis by simp
qed

lemma filled_last: "s \<noteq> [] \<Longrightarrow> \<not> is_space (last s) \<Longrightarrow> filled s"
  using last_in_set [of s] by (auto simp: filled_def list_all_iff)

lemma strip_filled: "strip s \<noteq> [] \<Longrightarrow> filled (strip s)"
  unfolding strip_def using rstrip_last [of "lstrip s"] by (auto intro: filled_last)

lemma filled_has_char: "c \<in> set s \<Longrightarrow> \<not> is_space c \<Longrightarrow> filled s"
  by (auto simp: filled_def list_all_iff)

lemma fmt1_filled: "filled (fmt1 x @ u)"
proof (cases x)
  case (Fin q)
  have "\<not> is_space 46" by (simp add: is_space_def)
  moreover have "46 \<in> set (fmt1 x @ u)"
    using Fin by (simp add: fmt1_def Let_def)
  ultimately show ?thesis by (rule filled_has_char [rotated])
next
  case PInf
  have "\<not> is_space 105" by (simp add: is_space_def)
  moreover have "105 \<in> set (fmt1 x @ u)"
    using PInf by (simp add: fmt1_def)
  ultimately show ?thesis by (rule filled_has_char [rotated])
qed

lemma representative_ok:
  assumes "record_ok (sample_item data)"
  shows "record_ok (representative data)"
proof -
  have "filled (measured_value (representative data))"
    using fmt1_filled [of "mean (b_values data)" "[]"] fmt1_filled [of "mean (b_values data)"]
    by (auto simp: representative_def Let_def split: option.splits)
  moreover have "test_item (representative data) = test_item (sample_item data)"
    and "judgment_val (representative data) = judgment_val (sample_item data)"
    by (simp_all add: representative_def Let_def)
  ultimately show ?thesis
    using assms by (simp add: record_ok_def)
qed

lemma append_value_sample:
  "(k, b) \<in> set (append_value key v rv) \<Longrightarrow>
   \<exists>b'. (k, b') \<in> set rv \<and> sample_item b = sample_item b'"
proof (induction rv)
  case Nil
  then show ?case by simp
next
  case (Cons kb rv)
  obtain k0 b0 where kb: "kb = (k0, b0)" by (cases kb)
  show ?case
  proof (cases "k0 = key")
    case True
    with Cons.prems kb have "(k, b) = (k0, b0\<lparr>b_values := b_values b0 @ [v]\<rparr>) \<or> (k, b) \<in> set rv"
      by simp
    then show ?thesis
    proof
      assume "(k, b) = (k0, b0\<lparr>b_values := b_values b0 @ [v]\<rparr>)"
      then have "(k, b0) \<in> set (kb # rv) \<and> sample_item b = sample_item b0"
        using kb by simp
      then show ?thesis by blast
    next
      assume "(k, b) \<in> set rv"
      then show ?thesis by auto
    qed
  next
    case False
    with Cons.prems kb have "(k, b) = (k0, b0) \<or> (k, b) \<in> set (append_value key v rv)"
      by simp
    then show ?thesis
    proof
      assume "(k, b) = (k0, b0)"
      then show ?thesis using kb by auto
    next
      assume "(k, b) \<in> set (append_value key v rv)"
      with Cons.IH obtain b' where "(k, b') \<in> set rv" "sample_item b = sample_item b'"
        by blast
      then show ?thesis by auto
    qed
  qed
qed

lemma bucket_item_ok:
  assumes "bucket_item location rv item = Inr rv'"
    and "record_ok item"
    and "\<forall>kb\<in>set rv. record_ok (sample_item (snd kb))"
  shows "\<forall>kb\<in>set rv'. record_ok (sample_item (snd kb))"
proof (cases "re_search number_re (measured_value item)")
  case None
  with assms show ?thesis by (simp add: bucket_item_def)
next
  case (Some m)
  show ?thesis
  proof (cases "py_round (py_float (group m 1))")
    case (Inl e)
    with Some assms(1) show ?thesis by (simp add: bucket_item_def Let_def)
  next
    case (Inr n)
    let ?key = "bucket_key location n"
    let ?new = "\<lparr>b_location = location, b_judgment = judgment_val item, b_values = [],
                sample_item = item\<rparr>"
    let ?rv = "if map_of rv ?key = None then rv @ [(?key, ?new)] else rv"
    from Some Inr assms(1) have rv': "rv' = append_value ?key (py_float (group m 1)) ?rv"
      by (simp add: bucket_item_def Let_def)
    have base: "\<forall>kb\<in>set ?rv. record_ok (sample_item (snd kb))"
      using assms(2,3) by auto
    show ?thesis
    proof
      fix kb assume "kb \<in> set rv'"
      then have "(fst kb, snd kb) \<in> set (append_value ?key (py_float (group m 1)) ?rv)"
        using rv' by simp
      then obtain b' where "(fst kb, b') \<in> set ?rv" "sample_item (snd kb) = sample_item b'"
        using append_value_sample by blast
      with base show "record_ok (sample_item (snd kb))" by fastforce
    qed
  qed
qed

lemma bucket_items_ok:
  assumes "bucket_items location rv items = Inr rv'"
    and "\<forall>it\<in>set items. record_ok it"
    and "\<forall>kb\<in>set rv. record_ok (sample_item (snd kb))"
  shows "\<forall>kb\<in>set rv'. record_ok (sample_item (snd kb))"
  using assms
proof (induction items arbitrary: rv)
  case Nil
  then show ?case by simp
next
  case (Cons item items)
  from Cons.prems(1) obtain rv1 where 1: "bucket_item location rv item = Inr rv1"
    and 2: "bucket_items location rv1 items = Inr rv'"
    by (auto split: sum.splits)
  have "\<forall>kb\<in>set rv1. record_ok (sample_item (snd kb))"
    using bucket_item_ok [OF 1] Cons.prems(2,3) by simp
  with Cons.IH [OF 2] Cons.prems(2) show ?case by simp
qed

lemma emit_buckets_ok:
  assumes "\<forall>kb\<in>set rv. record_ok (sample_item (snd kb))"
  shows "\<forall>it\<in>set (emit_buckets rv). record_ok it"
proof
  fix it assume "it \<in> set (emit_buckets rv)"
  then obtain kb where "kb \<in> set rv" and "it = representative (snd kb)"
    by (auto simp: emit_buckets_def)
  with assms show "record_ok it"
    by (simp add: representative_ok)
qed

lemma emit_groups_ok:
  assumes "emit_groups td g = Inr out"
    and "\<forall>it\<in>set td. record_ok it"
    and "\<forall>kv\<in>set g. \<forall>it\<in>set (snd kv). record_ok it"
  shows "\<forall>it\<in>set out. record_ok it"
  using assms
proof (induction g arbitrary: td)
  case Nil
  then show ?case by simp
next
  case (Cons kv g)
  obtain location items where kv: "kv = (location, items)" by (cases kv)
  show ?case
  proof (cases "items = []")
    case True
    with Cons.prems kv have "emit_groups td g = Inr out" by simp
    from Cons.IH [OF this] Cons.prems(2,3) show ?thesis by simp
  next
    case False
    with Cons.prems(1) kv obtain rv where 1: "bucket_items location [] items = Inr rv"
      and 2: "emit_groups (td @ emit_buckets rv) g = Inr out"
      by (auto split: sum.splits)
    have "\<forall>it\<in>set items. record_ok it"
      using Cons.prems(3) kv by simp
    with bucket_items_ok [OF 1] have "\<forall>kb\<in>set rv. record_ok (sample_item (snd kb))"
      by simp
    then have "\<forall>it\<in>set (td @ emit_buckets rv). record_ok it"
      using emit_buckets_ok [of rv] Cons.prems(2) by auto
    from Cons.IH [OF 2 this] Cons.prems(3) show ?thesis by simp
  qed
qed

lemma groups_add_ok:
  assumes "record_ok v" and "\<forall>kv\<in>set g. \<forall>it\<in>set (snd kv). record_ok it"
  shows "\<forall>kv\<in>set (groups_add k v g). \<forall>it\<in>set (snd kv). record_ok it"
  using assms by (induction k v g rule: groups_add.induct) auto

lemma build_item_fields:
  assumes "cur \<noteq> [] \<longrightarrow> filled cur"
  shows "test_item (fst (build_item hm [] n cur cells)) \<noteq> []
           \<longrightarrow> filled (test_item (fst (build_item hm [] n cur cells)))"
    and "measured_value (fst (build_item hm [] n cur cells)) \<noteq> []
           \<longrightarrow> filled (measured_value (fst (build_item hm [] n cur cells)))"
    and "judgment_val (fst (build_item hm [] n cur cells)) \<noteq> []
           \<longrightarrow> filled (judgment_val (fst (build_item hm [] n cur cells)))"
    and "snd (build_item hm [] n cur cells) \<noteq> []
           \<longrightarrow> filled (snd (build_item hm [] n cur cells))"
  using assms by (auto simp: build_item_def Let_def strip_filled split: option.splits)

lemma valid_item_ok:
  assumes "valid_item it"
    and "test_item it \<noteq> [] \<longrightarrow> filled (test_item it)"
    and "measured_value it \<noteq> [] \<longrightarrow> filled (measured_value it)"
    and "judgment_val it \<noteq> [] \<longrightarrow> filled (judgment_val it)"
  shows "record_ok it"
  using assms by (simp add: valid_item_def record_ok_def)

lemma row_step_ok:
  assumes "fst st \<noteq> [] \<longrightarrow> filled (fst st)"
    and "\<forall>kv\<in>set (snd st). \<forall>it\<in>set (snd kv). record_ok it"
  shows "(fst (row_step hm [] st ir) \<noteq> [] \<longrightarrow> filled (fst (row_step hm [] st ir)))
       \<and> (\<forall>kv\<in>set (snd (row_step hm [] st ir)). \<forall>it\<in>set (snd kv). record_ok it)"
proof (cases "length (snd ir) > max_col hm")
  case False
  with assms show ?thesis by (simp add: row_step_def)
next
  case True
  let ?b = "build_item hm [] (fst ir) (fst st) (snd ir)"
  note f = build_item_fields [OF assms(1), of hm "fst ir" "snd ir"]
  have loc: "fst (row_step hm [] st ir) = snd ?b"
    using True by (simp add: row_step_def Let_def)
  have grp: "snd (row_step hm [] st ir) =
      (if valid_item (fst ?b) then groups_add (test_item (fst ?b)) (fst ?b) (snd st) else snd st)"
    using True by (simp add: row_step_def Let_def)
  have "valid_item (fst ?b) \<Longrightarrow> record_ok (fst ?b)"
    by (rule valid_item_ok [OF _ f(1-3)])
  then have "\<forall>kv\<in>set (snd (row_step hm [] st ir)). \<forall>it\<in>set (snd kv). record_ok it"
    unfolding grp using groups_add_ok [OF _ assms(2)] assms(2) by auto
  with f(4) loc show ?thesis by simp
qed

lemma foldl_row_step_ok:
  assumes "fst st \<noteq> [] \<longrightarrow> filled (fst st)"
    and "\<forall>kv\<in>set (snd st). \<forall>it\<in>set (snd kv). record_ok it"
  shows "\<forall>kv\<in>set (snd (foldl (row_step hm []) st irs)). \<forall>it\<in>set (snd kv). record_ok it"
  using assms
proof (induction irs arbitrary: st)
  case Nil
  then show ?case by simp
next
  case (Cons ir irs)
  from row_step_ok [OF Cons.prems, of hm ir] Cons.IH [of "row_step hm [] st ir"]
  show ?case by simp
qed

lemma extract_rows_ok:
  "\<forall>kv\<in>set (snd (extract_rows hm [] rows)). \<forall>it\<in>set (snd kv). record_ok it"
  unfolding extract_rows_def by (rule foldl_row_step_ok) simp_all

lemma process_table_ok:
  assumes "process_table [] rows = Inr out"
  shows "\<forall>it\<in>set out. record_ok it"
proof -
  let ?hd = "analyse_headers (take (min 3 (length rows)) rows)"
  let ?g = "snd (extract_rows (fst ?hd) [] (drop (length (take (min 3 (length rows)) rows)) rows))"
  show ?thesis
  proof (cases "length rows > 1 \<and> snd ?hd \<and> hm_len (fst ?hd) \<ge> 2")
    case True
    then have "process_table [] rows = emit_groups [] ?g"
      by (simp add: process_table_def Let_def)
    with assms have "emit_groups [] ?g = Inr out" by simp
    from emit_groups_ok [OF this] extract_rows_ok show ?thesis by simp
  next
    case False
    then have "process_table [] rows = Inr []"
      by (auto simp: process_table_def Let_def)
    with assms show ?thesis by simp
  qed
qed

lemma scan_tables_ok:
  assumes "scan_tables [] ts = Inr out"
  shows "\<forall>it\<in>set out. record_ok it"
  using assms
proof (induction ts)
  case Nil
  then show ?case by simp
next
  case (Cons t ts)
  from Cons.prems obtain td where 1: "process_table [] t = Inr td"
    and 2: "if td \<noteq> [] then out = td else scan_tables [] ts = Inr out"
    by (auto split: sum.splits if_splits)
  show ?case
  proof (cases "td = []")
    case True
    with 2 Cons.IH show ?thesis by simp
  next
    case False
    with 2 process_table_ok [OF 1] show ?thesis by simp
  qed
qed

text \<open>
  Claim C5. Every record that a table adds to the result, and so every record of the
  result of the table loop, has an item, a value and a judgment that are not empty and
  not whitespace only, and an item that is not the placeholder U+4EE5 U+4E0B U+7A7A
  U+767D and does not start with U+4EE5 U+4E0B. This holds for every table, whatever
  its header mapping.
\<close>

theorem emitted_records_well_formed:
  "(process_table [] rows = Inr out \<longrightarrow>
      (\<forall>it\<in>set out.
         test_item it \<noteq> [] \<and> \<not> list_all is_space (test_item it)
         \<and> measured_value it \<noteq> [] \<and> \<not> list_all is_space (measured_value it)
         \<and> judgment_val it \<noteq> [] \<and> \<not> list_all is_space (judgment_val it)
         \<and> test_item it \<noteq> [20197, 19979, 31354, 30333]
         \<and> \<not> startswith (test_item it) [20197, 19979]))
   \<and> (scan_tables [] ts = Inr out' \<longrightarrow> (\<forall>it\<in>set out'. record_ok it))"
proof -
  have "process_table [] rows = Inr out \<Longrightarrow> \<forall>it\<in>set out. record_ok it"
    by (rule process_table_ok)
  moreover have "scan_tables [] ts = Inr out' \<Longrightarrow> \<forall>it\<in>set out'. record_ok it"
    by (rule scan_tables_ok)
  ultimately show ?thesis
    by (auto simp: record_ok_def filled_def blank_below_def below_prefix_def)
qed

lemma ex_table_two:
  "process_table []
     [ex_header, [], [], ex_row '' Beam A '' ''23.4 MPa'' ''OK'', ex_row [] ''about 31.7 MPa'' ''OK'',
      [[20197, 19979, 31354, 30333], asc ''1'', asc ''OK''], ex_row ''B'' [] ''OK'']
   = Inr [ex_item ''Beam A'' ''23.4'' ''OK'', ex_item ''Beam A'' ''31.7 MPa'' ''OK'']"
  by (simp add: table_eval)

theorem emitted_records_well_formed_witness:
  "process_table []
     [ex_header, [], [], ex_row '' Beam A '' ''23.4 MPa'' ''OK'', ex_row [] ''about 31.7 MPa'' ''OK'',
      [[20197, 19979, 31354, 30333], asc ''1'', asc ''OK''], ex_row ''B'' [] ''OK'']
     = Inr [ex_item ''Beam A'' ''23.4'' ''OK'', ex_item ''Beam A'' ''31.7 MPa'' ''OK'']
   \<and> list_all record_ok [ex_item ''Beam A'' ''23.4'' ''OK'', ex_item ''Beam A'' ''31.7 MPa'' ''OK'']
   \<and> scan_tables [] [[ex_header, [], [], ex_row ''A1'' ''1.5'' ''OK'']]
       = Inr [ex_item ''A1'' ''1.5'' ''OK'']
   \<and> list_all record_ok [ex_item ''A1'' ''1.5'' ''OK'']"
proof -
  let ?rows = "[ex_header, [], [], ex_row '' Beam A '' ''23.4 MPa'' ''OK'',
      ex_row [] ''about 31.7 MPa'' ''OK'', [[20197, 19979, 31354, 30333], asc ''1'', asc ''OK''],
      ex_row ''B'' [] ''OK'']"
  let ?out = "[ex_item ''Beam A'' ''23.4'' ''OK'', ex_item ''Beam A'' ''31.7 MPa'' ''OK'']"
  let ?ts = "[[ex_header, [], [], ex_row ''A1'' ''1.5'' ''OK'']]"
  have s: "scan_tables [] ?ts = Inr [ex_item ''A1'' ''1.5'' ''OK'']"
    by (simp add: ex_table_one)
  from emitted_records_well_formed [of ?rows ?out ?ts "[ex_item ''A1'' ''1.5'' ''OK'']"]
    ex_table_two s
  have "\<forall>it\<in>set ?out. record_ok it" and "\<forall>it\<in>set [ex_item ''A1'' ''1.5'' ''OK'']. record_ok it"
    by (simp_all add: record_ok_def filled_def blank_below_def below_prefix_def)
  with ex_table_two s show ?thesis by (simp add: list_all_iff)
qed

section \<open>The two patterns of the value format\<close>



lemma bt_Cls: "bt (Cls p) s c = (if s \<noteq> [] \<and> p (hd s) then [(tl s, c)] else [])"
  by (cases s) auto












section \<open>The value emitted for a bucket\<close>









end
